theory Spec2Isabelle
  imports Complex_Main "HOL-Library.Log_Nat"
begin

section \<open>JavaScript numbers\<close>

text \<open>
  A JavaScript number is a finite value, one of the two infinities, or NaN. A finite value
  is kept as the rational it is equal to. Sums and products of row indices, counts and
  scroll offsets are taken exactly (\<open>jadd\<close>, \<open>jmul\<close>): they are integers far below
  \<open>2^53\<close>. The arithmetic of \<open>getRowsPerPage\<close>, which multiplies by \<open>0.7\<close> and divides,
  is rounded as IEEE doubles are (\<open>double\<close>, \<open>fsub\<close>, \<open>fmul\<close>, \<open>fdiv\<close>). The sign of zero
  is not modelled.
\<close>

datatype jsnum = Num rat | PosInf | NegInf | NaN

text \<open>\<open>ToNumber\<close> of an argument that may be \<open>null\<close>: \<open>null\<close> converts to \<open>0\<close>.\<close>

fun toNumber :: "jsnum option \<Rightarrow> jsnum" where
  "toNumber None = Num 0"
| "toNumber (Some x) = x"

text \<open>The operator \<open>+\<close> on two numbers.\<close>

fun jadd :: "jsnum \<Rightarrow> jsnum \<Rightarrow> jsnum" where
  "jadd NaN y = NaN"
| "jadd x NaN = NaN"
| "jadd (Num a) (Num b) = Num (a + b)"
| "jadd PosInf NegInf = NaN"
| "jadd NegInf PosInf = NaN"
| "jadd PosInf y = PosInf"
| "jadd NegInf y = NegInf"
| "jadd (Num a) y = y"

text \<open>The sign of a number that is not NaN, as \<open>-1\<close>, \<open>0\<close> or \<open>1\<close>.\<close>

fun jsign :: "jsnum \<Rightarrow> int" where
  "jsign (Num a) = (if a < 0 then - 1 else if a = 0 then 0 else 1)"
| "jsign PosInf = 1"
| "jsign NegInf = - 1"
| "jsign NaN = 0"

text \<open>The operator \<open>*\<close> on two numbers: infinity times zero is NaN.\<close>

fun jmul :: "jsnum \<Rightarrow> jsnum \<Rightarrow> jsnum" where
  "jmul NaN y = NaN"
| "jmul x NaN = NaN"
| "jmul (Num a) (Num b) = Num (a * b)"
| "jmul x y =
     (if jsign x * jsign y = 0 then NaN
      else if 0 < jsign x * jsign y then PosInf else NegInf)"

text \<open>The operator \<open><\<close> on two numbers: false as soon as one side is NaN.\<close>

fun jlt :: "jsnum \<Rightarrow> jsnum \<Rightarrow> bool" where
  "jlt NaN y = False"
| "jlt x NaN = False"
| "jlt (Num a) (Num b) = (a < b)"
| "jlt PosInf y = False"
| "jlt x NegInf = False"
| "jlt x PosInf = True"
| "jlt NegInf y = True"

text \<open>\<open>Math.floor\<close>.\<close>

fun jfloor :: "jsnum \<Rightarrow> jsnum" where
  "jfloor (Num a) = Num (of_int \<lfloor>a\<rfloor>)"
| "jfloor x = x"

section \<open>Doubles\<close>

text \<open>\<open>pow2 e\<close> is two to the power \<open>e\<close>, and \<open>ilog2 a\<close>, for a positive \<open>a\<close>, the
  exponent \<open>e\<close> with \<open>pow2 e \<le> a < pow2 (e + 1)\<close>.\<close>

definition pow2 :: "int \<Rightarrow> rat" where
  "pow2 e = (if 0 \<le> e then 2 ^ nat e else 1 / 2 ^ nat (- e))"

definition ilog2 :: "rat \<Rightarrow> int" where
  "ilog2 a =
     (let (p, q) = quotient_of a; e = bitlen p - bitlen q
      in if pow2 e \<le> a then e else e - 1)"

text \<open>Rounding to the nearest integer, a tie going to the even one.\<close>

definition roundHalfEven :: "rat \<Rightarrow> int" where
  "roundHalfEven m =
     (let f = \<lfloor>m\<rfloor>; r = m - of_int f
      in if r < 1 / 2 then f else if 1 / 2 < r then f + 1 else if even f then f else f + 1)"

text \<open>
  The double nearest to a rational (binary64, round to nearest, ties to even): a
  significand of 53 bits, the least exponent \<open>-1022\<close> with subnormal values below it, and
  an infinity when the rounded value reaches \<open>2^1024\<close>, which needs an exponent of
  \<open>1023\<close> at least. It is what a number written in a
  configuration or measured on the page becomes when the code reads it, and what each
  arithmetic operation returns for its exact result.
\<close>

definition double :: "rat \<Rightarrow> jsnum" where
  "double x =
     (if x = 0 then Num 0
      else
        (let a = \<bar>x\<bar>;
             e = max (ilog2 a) (- 1022);
             q = pow2 (e - 52);
             r = of_int (roundHalfEven (a / q)) * q
         in if e < 1023 then Num (if 0 < x then r else - r)
            else if pow2 1024 \<le> r then (if 0 < x then PosInf else NegInf)
            else Num (if 0 < x then r else - r)))"

text \<open>The operators \<open>-\<close>, \<open>*\<close> and \<open>/\<close> on doubles.\<close>

fun fsub :: "jsnum \<Rightarrow> jsnum \<Rightarrow> jsnum" where
  "fsub NaN y = NaN"
| "fsub x NaN = NaN"
| "fsub (Num a) (Num b) = double (a - b)"
| "fsub PosInf PosInf = NaN"
| "fsub NegInf NegInf = NaN"
| "fsub PosInf y = PosInf"
| "fsub NegInf y = NegInf"
| "fsub (Num a) PosInf = NegInf"
| "fsub (Num a) NegInf = PosInf"

fun fmul :: "jsnum \<Rightarrow> jsnum \<Rightarrow> jsnum" where
  "fmul NaN y = NaN"
| "fmul x NaN = NaN"
| "fmul (Num a) (Num b) = double (a * b)"
| "fmul x y =
     (if jsign x * jsign y = 0 then NaN
      else if 0 < jsign x * jsign y then PosInf else NegInf)"

fun fdiv :: "jsnum \<Rightarrow> jsnum \<Rightarrow> jsnum" where
  "fdiv NaN y = NaN"
| "fdiv x NaN = NaN"
| "fdiv (Num a) (Num b) =
     (if b \<noteq> 0 then double (a / b)
      else if 0 < a then PosInf else if a < 0 then NegInf else NaN)"
| "fdiv (Num a) y = Num 0"
| "fdiv x (Num b) = (if 0 \<le> jsign x * jsign (Num b) then x else fsub (Num 0) x)"
| "fdiv x y = NaN"

section \<open>The gallery and what it reads from the page\<close>

text \<open>
  An \<open>Item\<close> holds the fields it was created from and the row the Organizer gave it. Its
  entry in the PhotoSwipe container (\<open>getPswpItem\<close>) is identified with its fields.
\<close>

record 'f item =
  itemFields :: 'f
  row :: nat

text \<open>The three options of \<open>IGalleryOptions\<close> that the disclosure logic reads.\<close>

record IGalleryOptions =
  rowHeight :: rat
  limit :: rat
  minRowsAtStart :: rat

datatype display = Block | NoDisplay

text \<open>
  The measurements an event handler reads from the page when it runs:
  \<open>winHeight\<close> is \<open>clientHeight\<close> of the scroll element (or of the document element),
  \<open>bodyOffsetTop\<close> and \<open>bodyRectWidth\<close> belong to \<open>bodyElement\<close>, \<open>rootOffsetTop\<close> and
  \<open>rootOffsetHeight\<close> to \<open>rootElement\<close>, and the \<open>wrapper\<close> fields to the scrolled element.
\<close>

record measures =
  winHeight :: rat
  bodyOffsetTop :: rat
  bodyRectWidth :: rat
  rootOffsetTop :: rat
  rootOffsetHeight :: rat
  wrapperScrollTop :: rat
  wrapperClientTop :: rat
  wrapperClientHeight :: rat

text \<open>
  The state of a \<open>Gallery\<close> without a filtering header, so that the getter \<open>collection\<close>
  is \<open>_collection\<close>. \<open>hasPagination\<close> says whether \<open>events.pagination\<close> is set and
  \<open>paginationLog\<close> records the arguments of each call of that hook, oldest first.
  \<open>imagesContainer\<close>, \<open>galleryVisible\<close> and \<open>galleryTotal\<close> are the first elements of
  the classes \<open>natural-gallery-images\<close>, \<open>natural-gallery-visible\<close> and
  \<open>natural-gallery-total\<close> under the root element: \<open>None\<close> when there is no such
  element (\<open>render\<close> creates none of them), otherwise its display or the count it shows.
\<close>

record 'f gallery =
  options :: IGalleryOptions
  hasPagination :: bool
  paginationLog :: "(nat \<times> jsnum) list"
  old_scroll_top :: rat
  bodyWidth :: rat
  pswpContainer :: "'f list"
  collection :: "'f item list"
  nextButton :: display
  noResults :: display
  imagesContainer :: "display option"
  galleryVisible :: "nat option"
  galleryTotal :: "nat option"

text \<open>
  A call either returns or throws; a thrown exception leaves the gallery as it was
  mutated up to the throw.
\<close>

datatype jserror = TypeError

datatype 'g result = Returned 'g | Threw jserror 'g

fun stateOf :: "'g result \<Rightarrow> 'g" where
  "stateOf (Returned g) = g"
| "stateOf (Threw e g) = g"

fun returned :: "'g result \<Rightarrow> bool" where
  "returned (Returned g) = True"
| "returned (Threw e g) = False"

text \<open>
  A value handed over as a batch of items: an array, \<open>null\<close> or \<open>undefined\<close>, or any
  other value (one whose \<open>constructor\<close> is not \<open>Array\<close>), of which only its truthiness
  matters.
\<close>

datatype 'f jsvalue = JArray "'f list" | JOther bool | JNullish

text \<open>Truthiness: an array is an object, hence truthy even when it is empty.\<close>

fun truthy :: "'f jsvalue \<Rightarrow> bool" where
  "truthy (JArray xs) = True"
| "truthy (JOther b) = b"
| "truthy JNullish = False"

section \<open>The Organizer\<close>

text \<open>
  \<open>Organizer.organize\<close> is not part of the sources at hand. It is a parameter \<open>lay\<close>:
  from the body width and the fields of the whole collection it gives the row of the item
  at each index. \<open>organize\<close> stores these rows in the items.
\<close>

type_synonym 'f layout = "rat \<Rightarrow> 'f list \<Rightarrow> nat \<Rightarrow> nat"

definition organize :: "'f layout \<Rightarrow> 'f gallery \<Rightarrow> 'f gallery" where
  "organize lay g =
     g\<lparr>collection :=
         map (\<lambda>(i, it). it\<lparr>row := lay (bodyWidth g) (map itemFields (collection g)) i\<rparr>)
           (enumerate 0 (collection g))\<rparr>"

section \<open>Disclosure\<close>

text \<open>\<open>getRowsPerPage\<close>. Every number it reads is a double, and so is the result of each
  of its operations; \<open>0.7\<close> is the double nearest to \<open>7/10\<close>.\<close>

definition getRowsPerPage :: "IGalleryOptions \<Rightarrow> measures \<Rightarrow> jsnum" where
  "getRowsPerPage opts d =
     (if double (limit opts) \<noteq> Num 0 then double (limit opts)
      else
        let winHeight = double (winHeight d);
            galleryVisibleHeight = fsub winHeight (double (bodyOffsetTop d));
            nbRows = jfloor (fdiv galleryVisibleHeight
                               (fmul (double (rowHeight opts)) (double (7 / 10))))
        in if jlt nbRows (double (minRowsAtStart opts)) then double (minRowsAtStart opts)
           else nbRows)"

text \<open>
  The loop of \<open>addElements\<close> over the items from \<open>nextImage\<close> on: an item whose row is
  below \<open>lastRow\<close> is pushed, and after each item the button is hidden if everything is shown.
\<close>

fun revealLoop :: "jsnum option \<Rightarrow> 'f item list \<Rightarrow> 'f gallery \<Rightarrow> 'f gallery" where
  "revealLoop lastRow [] g = g"
| "revealLoop lastRow (it # rest) g =
     (let g1 = (if jlt (Num (of_nat (row it))) (toNumber lastRow)
                then g\<lparr>pswpContainer := pswpContainer g @ [itemFields it]\<rparr> else g);
          g2 = (if length (pswpContainer g1) = length (collection g1)
                then g1\<lparr>nextButton := NoDisplay\<rparr> else g1)
      in revealLoop lastRow rest g2)"

text \<open>
  \<open>addElements\<close>. On an empty collection the display of the images element is set without a
  test, which throws when there is no such element; \<open>collection[nextImage].row\<close> throws when
  \<open>nextImage\<close> is past the end.
\<close>

definition addElements :: "jsnum option \<Rightarrow> 'f gallery \<Rightarrow> 'f gallery result" where
  "addElements rows g0 =
     (let g1 = g0\<lparr>nextButton := Block\<rparr> in
      if length (pswpContainer g1) = length (collection g1) then
        (let g2 = g1\<lparr>nextButton := NoDisplay\<rparr> in
         if length (collection g2) = 0 then
           (let g3 = g2\<lparr>noResults := Block\<rparr> in
            case imagesContainer g3 of
              None \<Rightarrow> Threw TypeError g3
            | Some x \<Rightarrow> Returned (g3\<lparr>imagesContainer := Some NoDisplay\<rparr>))
         else Returned g2)
      else
        (let nextImage = length (pswpContainer g1) in
         if nextImage \<noteq> 0 \<and> length (collection g1) \<le> nextImage then Threw TypeError g1
         else
           (let lastRow =
                  (if nextImage \<noteq> 0
                   then Some (jadd (Num (of_nat (row (collection g1 ! nextImage)))) (toNumber rows))
                   else rows);
                g2 = revealLoop lastRow (drop nextImage (collection g1)) g1;
                g3 = g2\<lparr>noResults := NoDisplay\<rparr>;
                g4 = (case imagesContainer g3 of
                        None \<Rightarrow> g3
                      | Some x \<Rightarrow> g3\<lparr>imagesContainer := Some Block\<rparr>);
                g5 = (case galleryVisible g4 of
                        None \<Rightarrow> g4
                      | Some x \<Rightarrow> g4\<lparr>galleryVisible := Some (length (pswpContainer g4))\<rparr>);
                g6 = (case galleryTotal g5 of
                        None \<Rightarrow> g5
                      | Some x \<Rightarrow> g5\<lparr>galleryTotal := Some (length (collection g5))\<rparr>)
            in Returned g6)))"

text \<open>\<open>addItems\<close>: reading \<open>items.constructor\<close> throws on \<open>null\<close> and \<open>undefined\<close>. A new
  item has no row until \<open>organize\<close> gives it one.\<close>

definition addItems :: "'f layout \<Rightarrow> measures \<Rightarrow> 'f jsvalue \<Rightarrow> 'f gallery \<Rightarrow> 'f gallery result" where
  "addItems lay d items g =
     (case items of
        JNullish \<Rightarrow> Threw TypeError g
      | JOther b \<Rightarrow> Returned g
      | JArray xs \<Rightarrow>
          if xs = [] then Returned g
          else
            (let display = (length (collection g) = 0
                            \<or> length (collection g) = length (pswpContainer g));
                 g1 = g\<lparr>collection := collection g @ map (\<lambda>f. \<lparr>itemFields = f, row = 0\<rparr>) xs\<rparr>;
                 g2 = organize lay g1
             in if display then addElements (Some (getRowsPerPage (options g2) d)) g2
                else Returned g2))"

text \<open>\<open>reset\<close>.\<close>

definition reset :: "'f gallery \<Rightarrow> 'f gallery" where
  "reset g = g\<lparr>pswpContainer := [], noResults := Block\<rparr>"

text \<open>\<open>resize\<close>: \<open>collection[pswpContainer.length - 1]\<close> is \<open>undefined\<close> when the index is
  \<open>-1\<close> or past the end.\<close>

definition resize :: "'f layout \<Rightarrow> measures \<Rightarrow> 'f gallery \<Rightarrow> 'f gallery result" where
  "resize lay d g =
     (let containerWidth = of_int \<lfloor>bodyRectWidth d\<rfloor> in
      if containerWidth \<noteq> bodyWidth g then
        (let g1 = g\<lparr>bodyWidth := containerWidth\<rparr>;
             g2 = organize lay g1;
             n = length (pswpContainer g2);
             nbRows = (if 0 < n \<and> n \<le> length (collection g2)
                       then jadd (Num (of_nat (row (collection g2 ! (n - 1))))) (Num 1)
                       else getRowsPerPage (options g2) d);
             g3 = reset g2
         in addElements (Some nbRows) g3)
      else Returned g)"

text \<open>\<open>refresh\<close>.\<close>

definition refresh :: "'f layout \<Rightarrow> measures \<Rightarrow> 'f gallery \<Rightarrow> 'f gallery result" where
  "refresh lay d g =
     (let g1 = organize lay (reset g)
      in addElements (Some (getRowsPerPage (options g1) d)) g1)"

section \<open>Pagination\<close>

text \<open>
  The array that \<open>getMaxImagesPerRow\<close> builds: writing at an index past the end leaves
  holes (\<open>None\<close>) in between.
\<close>

definition stackSet :: "nat \<Rightarrow> nat \<Rightarrow> nat option list \<Rightarrow> nat option list" where
  "stackSet r v stack =
     (if r < length stack then stack[r := Some v]
      else stack @ replicate (r - length stack) None @ [Some v])"

definition stackGet :: "nat option list \<Rightarrow> nat \<Rightarrow> nat option" where
  "stackGet stack r = (if r < length stack then stack ! r else None)"

definition nbPerRowFn :: "'f item list \<Rightarrow> nat option list" where
  "nbPerRowFn arr =
     foldl (\<lambda>stack e.
              stackSet (row e) (case stackGet stack (row e) of Some c \<Rightarrow> c + 1 | None \<Rightarrow> 1) stack)
       [] arr"

text \<open>\<open>Math.max\<close> of the elements of an array: \<open>-Infinity\<close> with no element, NaN as soon as
  one element is a hole (it is read as \<open>undefined\<close>).\<close>

fun mathMax :: "nat option list \<Rightarrow> jsnum" where
  "mathMax [] = NegInf"
| "mathMax (None # rest) = NaN"
| "mathMax (Some c # rest) =
     (case mathMax rest of
        NaN \<Rightarrow> NaN
      | Num m \<Rightarrow> Num (max (of_nat c) m)
      | _ \<Rightarrow> Num (of_nat c))"

definition getMaxImagesPerRow :: "'f gallery \<Rightarrow> jsnum" where
  "getMaxImagesPerRow g = mathMax (nbPerRowFn (collection g))"

text \<open>
  \<open>pagination\<close>, whose argument defaults to \<open>1\<close>. \<open>Organizer.simulatePagination\<close> is not part
  of the sources at hand and is the parameter \<open>sim\<close>.
\<close>

definition pagination ::
  "('f gallery \<Rightarrow> jsnum) \<Rightarrow> measures \<Rightarrow> jsnum option \<Rightarrow> 'f gallery \<Rightarrow> 'f gallery" where
  "pagination sim d nbRowsArg g =
     (let nbRows = (case nbRowsArg of None \<Rightarrow> Num 1 | Some n \<Rightarrow> n) in
      if hasPagination g then
        (if length (collection g) \<noteq> 0 then
           (let elementPerRow = getMaxImagesPerRow g
            in g\<lparr>paginationLog :=
                   paginationLog g @ [(length (collection g), jmul elementPerRow nbRows)]\<rparr>)
         else
           (let estimation = sim g
            in g\<lparr>paginationLog :=
                   paginationLog g @
                     [(length (collection g),
                       jmul (jmul estimation (getRowsPerPage (options g) d)) (Num 2))]\<rparr>))
      else g)"

text \<open>The listener that \<open>bindScroll\<close> installs.\<close>

definition onScroll :: "('f gallery \<Rightarrow> jsnum) \<Rightarrow> measures \<Rightarrow> 'f gallery \<Rightarrow> 'f gallery result" where
  "onScroll sim d g =
     (let endOfGalleryAt = rootOffsetTop d + rootOffsetHeight d;
          current_scroll_top =
            wrapperScrollTop d - (if wrapperClientTop d \<noteq> 0 then wrapperClientTop d else 0);
          wrapperHeight = wrapperClientHeight d;
          scroll_delta = current_scroll_top - old_scroll_top g;
          g1 = g\<lparr>old_scroll_top := current_scroll_top\<rparr>
      in if 0 < scroll_delta \<and> endOfGalleryAt \<le> current_scroll_top + wrapperHeight then
           (case addElements (Some (Num 1)) g1 of
              Threw e g2 \<Rightarrow> Threw e g2
            | Returned g2 \<Rightarrow> Returned (pagination sim d (Some (Num 1)) g2))
         else Returned g1)"

text \<open>The click listener of the "next" button.\<close>

definition onNextClick :: "('f gallery \<Rightarrow> jsnum) \<Rightarrow> measures \<Rightarrow> 'f gallery \<Rightarrow> 'f gallery result" where
  "onNextClick sim d g =
     (let rows = getRowsPerPage (options g) d in
      case addElements (Some rows) g of
        Threw e g2 \<Rightarrow> Threw e g2
      | Returned g2 \<Rightarrow> Returned (pagination sim d (Some rows) g2))"

text \<open>The setter of \<open>collection\<close>.\<close>

definition setCollection ::
  "'f layout \<Rightarrow> measures \<Rightarrow> 'f jsvalue \<Rightarrow> 'f gallery \<Rightarrow> 'f gallery result" where
  "setCollection lay d items g = addItems lay d items ((reset g)\<lparr>collection := []\<rparr>)"

text \<open>
  The constructor, from \<open>render\<close> on: the button is hidden, the empty-state element is
  shown, the body width is measured, and the images of \<open>data\<close> are stored if there are any;
  otherwise a first page is asked for. \<open>imgs\<close>, \<open>vis\<close> and \<open>tot\<close> say which of the
  three counting elements the page has. The scroll listener it installs when \<open>limit\<close> is
  \<open>0\<close> is \<open>onScroll\<close> and leaves no trace in the state.
\<close>

definition constructor ::
  "'f layout \<Rightarrow> ('f gallery \<Rightarrow> jsnum) \<Rightarrow> measures \<Rightarrow> IGalleryOptions \<Rightarrow> bool \<Rightarrow>
   display option \<Rightarrow> nat option \<Rightarrow> nat option \<Rightarrow> 'f jsvalue \<Rightarrow> 'f gallery result" where
  "constructor lay sim d opts hook imgs vis tot images =
     (let g = \<lparr>options = opts, hasPagination = hook, paginationLog = [], old_scroll_top = 0,
                bodyWidth = of_int \<lfloor>bodyRectWidth d\<rfloor>, pswpContainer = [], collection = [],
                nextButton = NoDisplay, noResults = Block, imagesContainer = imgs,
                galleryVisible = vis, galleryTotal = tot\<rparr>
      in if truthy images then setCollection lay d images g
         else Returned (pagination sim d None g))"

section \<open>Sequences of calls\<close>

text \<open>
  The calls that change what is materialized, each with the measurements of the page at
  the time of the call. A call that throws leaves the state it reached to the next call.
\<close>

datatype 'f call =
    AddItems "'f jsvalue" measures
  | AddElements "jsnum option"
  | Resize measures
  | Reset

fun step :: "'f layout \<Rightarrow> 'f call \<Rightarrow> 'f gallery \<Rightarrow> 'f gallery result" where
  "step lay (AddItems items d) g = addItems lay d items g"
| "step lay (AddElements rows) g = addElements rows g"
| "step lay (Resize d) g = resize lay d g"
| "step lay Reset g = Returned (reset g)"

fun run :: "'f layout \<Rightarrow> 'f call list \<Rightarrow> 'f gallery \<Rightarrow> 'f gallery" where
  "run lay [] g = g"
| "run lay (c # cs) g = run lay cs (stateOf (step lay c g))"

section \<open>Notions used to state the properties\<close>

text \<open>
  The bound \<open>lastRow\<close> that \<open>addElements\<close> computes before its loop, as a number, from
  its argument, the number of materialized items and the collection.
\<close>

definition lastRowOf :: "jsnum option \<Rightarrow> nat \<Rightarrow> 'f item list \<Rightarrow> jsnum" where
  "lastRowOf rows nextImage c =
     (if nextImage \<noteq> 0 then jadd (Num (of_nat (row (c ! nextImage)))) (toNumber rows)
      else toNumber rows)"

text \<open>
  Row indices that never skip a row: each one repeats its predecessor or follows it by one.
  \<open>layoutRows\<close> asks in addition that the first row is row \<open>0\<close>.
\<close>

fun stepwise :: "nat list \<Rightarrow> bool" where
  "stepwise [] = True"
| "stepwise [r] = True"
| "stepwise (r # s # rs) = ((s = r \<or> s = Suc r) \<and> stepwise (s # rs))"

definition layoutRows :: "nat list \<Rightarrow> bool" where
  "layoutRows rs = ((case rs of [] \<Rightarrow> True | r # rest \<Rightarrow> r = 0) \<and> stepwise rs)"

text \<open>The number of distinct rows among some items.\<close>

definition distinctRows :: "'f item list \<Rightarrow> nat" where
  "distinctRows xs = length (remdups (map row xs))"

text \<open>The materialized set is the prefix of the collection of its own length.\<close>

definition materializedPrefix :: "'f gallery \<Rightarrow> bool" where
  "materializedPrefix g =
     (pswpContainer g = map itemFields (take (length (pswpContainer g)) (collection g)))"

text \<open>A layout that never gives a later item an earlier row.\<close>

definition monotoneLayout :: "'f layout \<Rightarrow> bool" where
  "monotoneLayout lay =
     (\<forall>w fs i j. i \<le> j \<longrightarrow> j < length fs \<longrightarrow> lay w fs i \<le> lay w fs j)"

text \<open>The largest number of items that share a row (\<open>0\<close> without items).\<close>

definition maxPerRow :: "'f item list \<Rightarrow> nat" where
  "maxPerRow c =
     (if c = [] then 0 else Max ((\<lambda>r. count_list (map row c) r) ` set (map row c)))"

text \<open>
  An example of a layout, for concrete galleries: every item is a square thumbnail
  \<open>100\<close> wide, so that a row holds as many items as hundreds fit in the width.
\<close>

definition gridLayout :: "nat layout" where
  "gridLayout w fs i = i div nat \<lfloor>w / 100\<rfloor>"

text \<open>The default options of the source, and measurements of a page \<open>w\<close> wide whose
  viewport is \<open>800\<close> high with the gallery \<open>100\<close> below its top.\<close>

definition defaultOptions :: IGalleryOptions where
  "defaultOptions = \<lparr>rowHeight = 350, limit = 0, minRowsAtStart = 2\<rparr>"

definition pageOfWidth :: "rat \<Rightarrow> measures" where
  "pageOfWidth w =
     \<lparr>winHeight = 800, bodyOffsetTop = 100, bodyRectWidth = w, rootOffsetTop = 100,
      rootOffsetHeight = 0, wrapperScrollTop = 0, wrapperClientTop = 0,
      wrapperClientHeight = 800\<rparr>"

text \<open>A gallery with default options, no counting element and a pagination hook, that
  holds the given items and has materialized the first \<open>k\<close> of them.\<close>

definition galleryShowing :: "nat item list \<Rightarrow> nat \<Rightarrow> nat gallery" where
  "galleryShowing c k =
     \<lparr>options = defaultOptions, hasPagination = True, paginationLog = [], old_scroll_top = 0,
      bodyWidth = 200, pswpContainer = map itemFields (take k c), collection = c,
      nextButton = (if k = length c then NoDisplay else Block),
      noResults = (if k = 0 then Block else NoDisplay), imagesContainer = None,
      galleryVisible = None, galleryTotal = None\<rparr>"

text \<open>The gallery that the constructor starts from, before it looks at the images.\<close>

definition blank ::
  "IGalleryOptions \<Rightarrow> bool \<Rightarrow> rat \<Rightarrow> display option \<Rightarrow> nat option \<Rightarrow> nat option \<Rightarrow>
   'f gallery" where
  "blank opts hook w imgs vis tot =
     \<lparr>options = opts, hasPagination = hook, paginationLog = [], old_scroll_top = 0,
      bodyWidth = w, pswpContainer = [], collection = [], nextButton = NoDisplay,
      noResults = Block, imagesContainer = imgs, galleryVisible = vis, galleryTotal = tot\<rparr>"

text \<open>What every call keeps true: the materialized set is a prefix and the rows of the
  collection never decrease.\<close>

definition disclosureInv :: "'f gallery \<Rightarrow> bool" where
  "disclosureInv g = (materializedPrefix g \<and> sorted (map row (collection g)))"

text \<open>
  What \<open>getMaxImagesPerRow\<close> builds for rows that start at \<open>0\<close> and skip none: the
  number of items of each row, without a hole.
\<close>

definition rowCounts :: "nat list \<Rightarrow> nat option list" where
  "rowCounts rs =
     (if rs = [] then [] else map (\<lambda>r. Some (count_list rs r)) [0..<Suc (last rs)])"

text \<open>Six items as the grid layout places them in a body \<open>200\<close> wide, two to a row, and
  in a body \<open>400\<close> wide, four to a row.\<close>

definition sixItems :: "nat item list" where
  "sixItems =
     [\<lparr>itemFields = 0, row = 0\<rparr>, \<lparr>itemFields = 1, row = 0\<rparr>, \<lparr>itemFields = 2, row = 1\<rparr>,
      \<lparr>itemFields = 3, row = 1\<rparr>, \<lparr>itemFields = 4, row = 2\<rparr>, \<lparr>itemFields = 5, row = 2\<rparr>]"

definition sixItemsWide :: "nat item list" where
  "sixItemsWide =
     [\<lparr>itemFields = 0, row = 0\<rparr>, \<lparr>itemFields = 1, row = 0\<rparr>, \<lparr>itemFields = 2, row = 0\<rparr>,
      \<lparr>itemFields = 3, row = 0\<rparr>, \<lparr>itemFields = 4, row = 1\<rparr>, \<lparr>itemFields = 5, row = 1\<rparr>]"

section \<open>The loop of \<open>addElements\<close>\<close>

lemma jlt_antimono: "a \<le> b \<Longrightarrow> jlt (Num b) B \<Longrightarrow> jlt (Num a) B"
  by (cases B) auto

lemma revealLoop_collection [simp]: "collection (revealLoop b xs g) = collection g"
  by (induction xs arbitrary: g) (auto simp: Let_def)

lemma revealLoop_pswp:
  "pswpContainer (revealLoop b xs g) =
     pswpContainer g @ map itemFields (filter (\<lambda>it. jlt (Num (of_nat (row it))) (toNumber b)) xs)"
  by (induction xs arbitrary: g) (auto simp: Let_def)

lemma revealLoop_other [simp]:
  "options (revealLoop b xs g) = options g"
  "hasPagination (revealLoop b xs g) = hasPagination g"
  "paginationLog (revealLoop b xs g) = paginationLog g"
  "old_scroll_top (revealLoop b xs g) = old_scroll_top g"
  "bodyWidth (revealLoop b xs g) = bodyWidth g"
  "noResults (revealLoop b xs g) = noResults g"
  "imagesContainer (revealLoop b xs g) = imagesContainer g"
  "galleryVisible (revealLoop b xs g) = galleryVisible g"
  "galleryTotal (revealLoop b xs g) = galleryTotal g"
  by (induction xs arbitrary: g, auto simp: Let_def)+

lemma revealLoop_nextButton:
  "length (pswpContainer g) + length xs \<le> length (collection g) \<Longrightarrow>
   nextButton g = Block \<Longrightarrow>
   nextButton (revealLoop b xs g) =
     (if xs \<noteq> [] \<and> length (pswpContainer (revealLoop b xs g)) = length (collection g)
      then NoDisplay else Block)"
proof (induction xs arbitrary: g)
  case Nil
  then show ?case by simp
next
  case (Cons it rest)
  show ?case
  proof (cases rest)
    case Nil
    then show ?thesis using Cons.prems by (auto simp: Let_def)
  next
    case (Cons a list)
    then show ?thesis using Cons.prems Cons.IH
      by (auto simp: Let_def revealLoop_pswp)
  qed
qed

lemma sorted_filter_takeWhile:
  "sorted (map f xs) \<Longrightarrow> (\<And>x y. f x \<le> f y \<Longrightarrow> P y \<Longrightarrow> P x) \<Longrightarrow>
   filter P xs = takeWhile P xs"
proof (induction xs)
  case Nil then show ?case by simp
next
  case (Cons x xs)
  show ?case
  proof (cases "P x")
    case True
    then show ?thesis using Cons by simp
  next
    case False
    have "\<forall>y\<in>set xs. \<not> P y"
    proof
      fix y assume "y \<in> set xs"
      then have "f x \<le> f y" using Cons.prems(1) by simp
      then show "\<not> P y" using False Cons.prems(2) by blast
    qed
    then show ?thesis using False by (simp add: filter_empty_conv[THEN iffD2] )
  qed
qed

lemma addElements_reveal:
  assumes "length (pswpContainer g) < length (collection g)"
  shows "returned (addElements rows g)"
    and "pswpContainer (stateOf (addElements rows g)) =
           pswpContainer g @ map itemFields
             (filter (\<lambda>it. jlt (Num (of_nat (row it))) (lastRowOf rows (length (pswpContainer g)) (collection g)))
                (drop (length (pswpContainer g)) (collection g)))"
    and "collection (stateOf (addElements rows g)) = collection g"
    and "noResults (stateOf (addElements rows g)) = NoDisplay"
  using assms
  by (auto simp: addElements_def Let_def revealLoop_pswp lastRowOf_def split: option.splits)

lemma addElements_reveal_nextButton:
  assumes "length (pswpContainer g) < length (collection g)"
  shows "nextButton (stateOf (addElements rows g)) =
           (if length (pswpContainer (stateOf (addElements rows g))) = length (collection g)
            then NoDisplay else Block)"
proof -
  let ?g1 = "g\<lparr>nextButton := Block\<rparr>"
  let ?k = "length (pswpContainer g)"
  have "nextButton (revealLoop b (drop ?k (collection g)) ?g1) =
     (if drop ?k (collection g) \<noteq> [] \<and> length (pswpContainer (revealLoop b (drop ?k (collection g)) ?g1)) = length (collection ?g1)
      then NoDisplay else Block)" for b
    by (rule revealLoop_nextButton) (use assms in auto)
  then show ?thesis using assms
    by (auto simp: addElements_def Let_def split: option.splits)
qed

lemma stepwise_set: "stepwise (r # rs) \<Longrightarrow> set (r # rs) = {r..last (r # rs)}"
proof (induction rs arbitrary: r)
  case Nil then show ?case by simp
next
  case (Cons a rs)
  then have st: "a = r \<or> a = Suc r" and IH: "set (a # rs) = {a..last (a # rs)}" by auto
  have "a \<in> set (a # rs)" by simp
  then have "a \<le> last (a # rs)" unfolding IH by simp
  then show ?case using st IH by auto
qed

lemma stepwise_drop: "stepwise rs \<Longrightarrow> stepwise (drop k rs)"
proof (induction rs arbitrary: k rule: stepwise.induct)
  case 1 then show ?case by simp
next
  case (2 r) then show ?case by (cases k) auto
next
  case (3 r s rs)
  show ?case
  proof (cases k)
    case 0 then show ?thesis using 3 by simp
  next
    case (Suc k')
    then show ?thesis using 3 by simp
  qed
qed

lemma stepwise_sorted: "stepwise rs \<Longrightarrow> sorted rs"
proof (induction rs rule: stepwise.induct)
  case (3 r s rs)
  then have "sorted (s # rs)" "r \<le> s" by auto
  then show ?case by (auto)
qed auto

section \<open>Revealing rows\<close>

lemma distinctRows_card: "distinctRows xs = card (row ` set xs)"
  by (simp add: distinctRows_def length_remdups_card_conv)

lemma stepwise_rows_below:
  assumes "stepwise (map row xs)" and "xs \<noteq> []" and "0 < n"
  shows "card (row ` set (filter (\<lambda>it. row it < row (hd xs) + n) xs)) = min n (card (row ` set xs))"
proof -
  obtain x rest where xs: "xs = x # rest" using assms(2) by (cases xs) auto
  let ?f = "row x"
  let ?L = "last (map row xs)"
  have S: "row ` set xs = {?f..?L}"
    using stepwise_set[of ?f "map row rest"] assms(1) xs by simp
  have "?f \<in> row ` set xs" using xs by simp
  then have fL: "?f \<le> ?L" unfolding S by simp
  have "row ` set (filter (\<lambda>it. row it < ?f + n) xs) = {r \<in> row ` set xs. r < ?f + n}"
    by auto
  also have "\<dots> = {?f..<min (Suc ?L) (?f + n)}" unfolding S by auto
  finally have "card (row ` set (filter (\<lambda>it. row it < ?f + n) xs)) = min (Suc ?L) (?f + n) - ?f"
    by simp
  moreover have "card (row ` set xs) = Suc ?L - ?f" unfolding S by simp
  ultimately show ?thesis using fL assms(3) unfolding xs list.sel by (auto simp: min_def)
qed

lemma lastRowOf_layout:
  assumes "layoutRows (map row (collection g))"
      and "length (pswpContainer g) < length (collection g)"
  shows "lastRowOf (Some (Num (of_nat n))) (length (pswpContainer g)) (collection g) =
           Num (of_nat (row (collection g ! length (pswpContainer g)) + n))"
proof (cases "length (pswpContainer g) = 0")
  case True
  then have "row (collection g ! 0) = 0" using assms
    by (cases "collection g") (auto simp: layoutRows_def)
  then show ?thesis using True by (simp add: lastRowOf_def)
next
  case False
  then show ?thesis by (simp add: lastRowOf_def)
qed

text \<open>
  Claim C1, as the code has it. Let the rows of the collection start at row \<open>0\<close> and never
  skip a row, let some item be unmaterialized, and let \<open>n\<close> be positive. Then
  \<open>addElements(n)\<close> returns and leaves the collection as it is; it appends to the
  materialized set a run of consecutive items that starts at the first unmaterialized one,
  namely every remaining item whose row is below the row of that first item plus \<open>n\<close>;
  the appended items lie in exactly \<open>n\<close> distinct rows, or in all the remaining rows
  when fewer than \<open>n\<close> remain, in which case everything is materialized; and the
  "next" button is hidden exactly when everything is materialized.
\<close>

theorem addElements_reveals_rows:
  assumes "layoutRows (map row (collection g))"
      and "length (pswpContainer g) < length (collection g)"
      and "0 < n"
  shows "\<exists>g' m. addElements (Some (Num (of_nat n))) g = Returned g'
           \<and> collection g' = collection g
           \<and> pswpContainer g' =
               pswpContainer g @
                 map itemFields (take m (drop (length (pswpContainer g)) (collection g)))
           \<and> take m (drop (length (pswpContainer g)) (collection g)) =
               filter (\<lambda>it. row it < row (collection g ! length (pswpContainer g)) + n)
                 (drop (length (pswpContainer g)) (collection g))
           \<and> distinctRows (take m (drop (length (pswpContainer g)) (collection g))) =
               min n (distinctRows (drop (length (pswpContainer g)) (collection g)))
           \<and> (distinctRows (drop (length (pswpContainer g)) (collection g)) \<le> n \<longrightarrow>
                length (pswpContainer g') = length (collection g))
           \<and> (nextButton g' = NoDisplay \<longleftrightarrow> length (pswpContainer g') = length (collection g))"
proof -
  let ?c = "collection g"
  let ?k = "length (pswpContainer g)"
  let ?xs = "drop ?k ?c"
  let ?f = "row (?c ! ?k)"
  let ?P = "\<lambda>it. row it < ?f + n"
  let ?r = "addElements (Some (Num (of_nat n))) g"
  have xs_ne: "?xs \<noteq> []" using assms(2) by simp
  have hd_xs: "hd ?xs = ?c ! ?k" using assms(2) by (simp add: hd_drop_conv_nth)
  have st: "stepwise (map row ?xs)"
    using assms(1) stepwise_drop[of "map row ?c" ?k] by (simp add: layoutRows_def drop_map)
  have srt: "sorted (map row ?xs)" using st by (rule stepwise_sorted)
  have bound: "lastRowOf (Some (Num (of_nat n))) (length (pswpContainer g)) (collection g) = Num (of_nat (?f + n))"
    using assms(1,2) by (rule lastRowOf_layout)
  have Peq: "(\<lambda>it. jlt (Num (of_nat (row it))) (lastRowOf (Some (Num (of_nat n))) (length (pswpContainer g)) (collection g))) = ?P"
    unfolding bound by (auto simp only: jlt.simps of_nat_less_iff)
  obtain g' where r: "?r = Returned g'"
    using addElements_reveal(1)[OF assms(2), of "Some (Num (of_nat n))"] by (cases ?r) auto
  have coll: "collection g' = ?c"
    using addElements_reveal(3)[OF assms(2), of "Some (Num (of_nat n))"] r by simp
  have pswp: "pswpContainer g' = pswpContainer g @ map itemFields (filter ?P ?xs)"
    using addElements_reveal(2)[OF assms(2), of "Some (Num (of_nat n))"] r unfolding Peq by simp
  have ftw: "filter ?P ?xs = takeWhile ?P ?xs"
    by (rule sorted_filter_takeWhile[where f = row]) (use srt in auto)
  define m where "m = length (takeWhile ?P ?xs)"
  have tk: "take m ?xs = filter ?P ?xs"
    unfolding m_def ftw by (simp add: takeWhile_eq_take[symmetric])
  have cnt: "distinctRows (filter ?P ?xs) = min n (distinctRows ?xs)"
    using stepwise_rows_below[OF st xs_ne assms(3)] hd_xs by (simp add: distinctRows_card)
  have full: "length (pswpContainer g') = length ?c" if le: "distinctRows ?xs \<le> n"
  proof -
    have "distinctRows (filter ?P ?xs) = distinctRows ?xs" using cnt le by simp
    then have "card (row ` set (filter ?P ?xs)) = card (row ` set ?xs)"
      by (simp add: distinctRows_card)
    moreover have "row ` set (filter ?P ?xs) \<subseteq> row ` set ?xs" by auto
    ultimately have eq: "row ` set (filter ?P ?xs) = row ` set ?xs"
      by (simp add: card_subset_eq)
    have "\<forall>x\<in>set ?xs. ?P x"
    proof
      fix x assume "x \<in> set ?xs"
      then have "row x \<in> row ` set (filter ?P ?xs)" unfolding eq by simp
      then show "?P x" by auto
    qed
    then have "filter ?P ?xs = ?xs" by (simp add: filter_id_conv[THEN iffD2])
    then show ?thesis using pswp assms(2) by simp
  qed
  have nb: "nextButton g' = NoDisplay \<longleftrightarrow> length (pswpContainer g') = length ?c"
    using addElements_reveal_nextButton[OF assms(2), of "Some (Num (of_nat n))"] r by auto
  have pswp': "pswpContainer g' = pswpContainer g @ map itemFields (take m ?xs)"
    using pswp tk by simp
  have cnt': "distinctRows (take m ?xs) = min n (distinctRows ?xs)"
    using cnt tk by simp
  from r coll pswp' tk cnt' full nb show ?thesis by blast
qed

text \<open>The theorem at a gallery of five items in three rows, of which the first row is
  materialized, and \<open>n = 1\<close>.\<close>

theorem addElements_reveals_rows_witness:
  "layoutRows (map row (collection (galleryShowing
       [\<lparr>itemFields = 0, row = 0\<rparr>, \<lparr>itemFields = 1, row = 0\<rparr>, \<lparr>itemFields = 2, row = 1\<rparr>,
        \<lparr>itemFields = 3, row = 1\<rparr>, \<lparr>itemFields = 4, row = 2\<rparr>] 2)))
   \<and> length (pswpContainer (galleryShowing
       [\<lparr>itemFields = 0, row = 0\<rparr>, \<lparr>itemFields = 1, row = 0\<rparr>, \<lparr>itemFields = 2, row = 1\<rparr>,
        \<lparr>itemFields = 3, row = 1\<rparr>, \<lparr>itemFields = 4, row = 2\<rparr>] 2))
       < length (collection (galleryShowing
       [\<lparr>itemFields = 0, row = 0\<rparr>, \<lparr>itemFields = 1, row = 0\<rparr>, \<lparr>itemFields = 2, row = 1\<rparr>,
        \<lparr>itemFields = 3, row = 1\<rparr>, \<lparr>itemFields = 4, row = 2\<rparr>] 2))
   \<and> (0::nat) < 1
   \<and> (\<exists>g' m. addElements (Some (Num (of_nat (1::nat)))) (galleryShowing
       [\<lparr>itemFields = 0, row = 0\<rparr>, \<lparr>itemFields = 1, row = 0\<rparr>, \<lparr>itemFields = 2, row = 1\<rparr>,
        \<lparr>itemFields = 3, row = 1\<rparr>, \<lparr>itemFields = 4, row = 2\<rparr>] 2) = Returned g'
         \<and> pswpContainer g' = [0, 1] @ map itemFields (take m
               [\<lparr>itemFields = 2, row = 1\<rparr>, \<lparr>itemFields = 3, row = 1\<rparr>, \<lparr>itemFields = 4, row = 2\<rparr>])
         \<and> distinctRows (take m
               [\<lparr>itemFields = 2, row = 1\<rparr>, \<lparr>itemFields = 3, row = 1\<rparr>, \<lparr>itemFields = 4::nat, row = 2\<rparr>]) = 1)"
proof -
  let ?G = "galleryShowing
       [\<lparr>itemFields = 0, row = 0\<rparr>, \<lparr>itemFields = 1, row = 0\<rparr>, \<lparr>itemFields = 2, row = 1\<rparr>,
        \<lparr>itemFields = 3, row = 1\<rparr>, \<lparr>itemFields = 4, row = 2\<rparr>] 2"
  have h1: "layoutRows (map row (collection ?G))"
    by (simp add: galleryShowing_def layoutRows_def)
  have h2: "length (pswpContainer ?G) < length (collection ?G)"
    by (simp add: galleryShowing_def)
  have h3: "(0::nat) < 1" by simp
  have p: "pswpContainer ?G = [0, 1]" by (simp add: galleryShowing_def)
  have d: "drop (length (pswpContainer ?G)) (collection ?G) =
             [\<lparr>itemFields = 2, row = 1\<rparr>, \<lparr>itemFields = 3, row = 1\<rparr>, \<lparr>itemFields = 4, row = 2\<rparr>]"
    by (simp add: galleryShowing_def)
  have r: "distinctRows
             [\<lparr>itemFields = 2, row = 1\<rparr>, \<lparr>itemFields = 3, row = 1\<rparr>, \<lparr>itemFields = 4::nat, row = 2\<rparr>] = 2"
    by (simp add: distinctRows_def)
  from addElements_reveals_rows [OF h1 h2 h3] obtain g' m where
    a: "addElements (Some (Num (of_nat (1::nat)))) ?G = Returned g'" and
    b: "pswpContainer g' =
          pswpContainer ?G @
            map itemFields (take m (drop (length (pswpContainer ?G)) (collection ?G)))" and
    c: "distinctRows (take m (drop (length (pswpContainer ?G)) (collection ?G))) =
          min 1 (distinctRows (drop (length (pswpContainer ?G)) (collection ?G)))"
    by blast
  have b': "pswpContainer g' = [0, 1] @ map itemFields (take m
               [\<lparr>itemFields = 2, row = 1\<rparr>, \<lparr>itemFields = 3, row = 1\<rparr>, \<lparr>itemFields = 4, row = 2\<rparr>])"
    by (rule b [unfolded d, unfolded p])
  have c': "distinctRows (take m
               [\<lparr>itemFields = 2, row = 1\<rparr>, \<lparr>itemFields = 3, row = 1\<rparr>, \<lparr>itemFields = 4::nat, row = 2\<rparr>]) = 1"
    using c [unfolded d, unfolded r] by simp
  show ?thesis using h1 h2 h3 a b' c' by blast
qed

text \<open>
  Claim C1 as it is stated, for every collection whose rows never decrease, fails: rows
  that never decrease are not enough. With two items, both in row \<open>1\<close>, and nothing
  materialized, \<open>addElements(1)\<close> returns without materializing anything: the bound is
  \<open>1\<close> and no row is below it. One row was there to be revealed.
\<close>

theorem reveal_monotone_counterexample:
  "sorted (map row (collection (galleryShowing [\<lparr>itemFields = 0, row = 1\<rparr>, \<lparr>itemFields = 1, row = 1\<rparr>] 0)))
   \<and> returned (addElements (Some (Num (of_nat 1)))
         (galleryShowing [\<lparr>itemFields = 0, row = 1\<rparr>, \<lparr>itemFields = 1, row = 1\<rparr>] 0))
   \<and> distinctRows
         (drop (length (pswpContainer
                  (galleryShowing [\<lparr>itemFields = 0, row = 1\<rparr>, \<lparr>itemFields = 1, row = 1\<rparr>] 0)))
            (take (length (pswpContainer (stateOf (addElements (Some (Num (of_nat 1)))
                     (galleryShowing [\<lparr>itemFields = 0, row = 1\<rparr>, \<lparr>itemFields = 1, row = 1\<rparr>] 0)))))
               (collection
                  (galleryShowing [\<lparr>itemFields = 0, row = 1\<rparr>, \<lparr>itemFields = 1, row = 1\<rparr>] 0))))
       \<noteq> min 1 (distinctRows
             (drop (length (pswpContainer
                  (galleryShowing [\<lparr>itemFields = 0, row = 1\<rparr>, \<lparr>itemFields = 1, row = 1\<rparr>] 0)))
               (collection
                  (galleryShowing [\<lparr>itemFields = 0, row = 1\<rparr>, \<lparr>itemFields = 1, row = 1\<rparr>] 0))))"
  by (simp add: galleryShowing_def addElements_def Let_def distinctRows_def)

text \<open>
  Nor are rows that start at \<open>0\<close> and never decrease. With one item in row \<open>0\<close> and two
  in row \<open>2\<close>, \<open>addElements(2)\<close> on a gallery that shows nothing materializes the first
  item only: one row, where two were asked for and two were there.
\<close>

lemma reveal_skipped_row_example:
  "layoutRows [0, 2, 2] = False
   \<and> sorted (map row (collection (galleryShowing
         [\<lparr>itemFields = 0, row = 0\<rparr>, \<lparr>itemFields = 1, row = 2\<rparr>, \<lparr>itemFields = 2, row = 2\<rparr>] 0)))
   \<and> distinctRows [\<lparr>itemFields = 0::nat, row = 0\<rparr>, \<lparr>itemFields = 1, row = 2\<rparr>,
                    \<lparr>itemFields = 2, row = 2\<rparr>] = 2
   \<and> pswpContainer (stateOf (addElements (Some (Num 2)) (galleryShowing
         [\<lparr>itemFields = 0, row = 0\<rparr>, \<lparr>itemFields = 1, row = 2\<rparr>, \<lparr>itemFields = 2, row = 2\<rparr>] 0)))
       = [0]"
proof -
  let ?G = "galleryShowing
         [\<lparr>itemFields = 0, row = 0\<rparr>, \<lparr>itemFields = 1, row = 2\<rparr>, \<lparr>itemFields = 2, row = 2\<rparr>] 0"
  have lt: "length (pswpContainer ?G) < length (collection ?G)"
    by (simp add: galleryShowing_def)
  have "pswpContainer (stateOf (addElements (Some (Num 2)) ?G)) = [0]"
    unfolding addElements_reveal(2)[OF lt]
    by (simp add: galleryShowing_def lastRowOf_def)
  then show ?thesis
    by (simp add: layoutRows_def distinctRows_def galleryShowing_def)
qed

section \<open>The materialized set is a prefix\<close>

lemma organize_other [simp]:
  "options (organize lay g) = options g"
  "hasPagination (organize lay g) = hasPagination g"
  "paginationLog (organize lay g) = paginationLog g"
  "old_scroll_top (organize lay g) = old_scroll_top g"
  "bodyWidth (organize lay g) = bodyWidth g"
  "pswpContainer (organize lay g) = pswpContainer g"
  "nextButton (organize lay g) = nextButton g"
  "noResults (organize lay g) = noResults g"
  "imagesContainer (organize lay g) = imagesContainer g"
  "galleryVisible (organize lay g) = galleryVisible g"
  "galleryTotal (organize lay g) = galleryTotal g"
  by (simp_all add: organize_def)

lemma organize_length [simp]: "length (collection (organize lay g)) = length (collection g)"
  by (simp add: organize_def)

lemma organize_nth:
  "i < length (collection g) \<Longrightarrow>
   collection (organize lay g) ! i =
     (collection g ! i)\<lparr>row := lay (bodyWidth g) (map itemFields (collection g)) i\<rparr>"
  by (simp add: organize_def nth_enumerate_eq)

lemma organize_fields [simp]:
  "map itemFields (collection (organize lay g)) = map itemFields (collection g)"
  by (rule nth_equalityI) (simp_all add: organize_nth)

lemma organize_rows:
  "map row (collection (organize lay g)) =
     map (lay (bodyWidth g) (map itemFields (collection g))) [0..<length (collection g)]"
  by (rule nth_equalityI) (simp_all add: organize_nth)

lemma organize_sorted:
  assumes "monotoneLayout lay"
  shows "sorted (map row (collection (organize lay g)))"
proof -
  let ?h = "lay (bodyWidth g) (map itemFields (collection g))"
  let ?n = "length (collection g)"
  have "map ?h [0..<?n] ! i \<le> map ?h [0..<?n] ! j"
    if "i \<le> j" and "j < length (map ?h [0..<?n])" for i j
  proof -
    have "j < length (map itemFields (collection g))" using that(2) by simp
    then have "?h i \<le> ?h j" using assms that(1) unfolding monotoneLayout_def by blast
    then show ?thesis using that by simp
  qed
  then have "sorted (map ?h [0..<?n])" unfolding sorted_iff_nth_mono by blast
  then show ?thesis by (simp only: organize_rows)
qed

lemma materializedPrefix_alt:
  "materializedPrefix g \<longleftrightarrow>
     pswpContainer g = take (length (pswpContainer g)) (map itemFields (collection g))"
  by (simp add: materializedPrefix_def take_map)

lemma materializedPrefix_length:
  assumes "materializedPrefix g"
  shows "length (pswpContainer g) \<le> length (collection g)"
proof -
  have "length (pswpContainer g) =
          length (map itemFields (take (length (pswpContainer g)) (collection g)))"
    using assms unfolding materializedPrefix_def by simp
  then show ?thesis by simp
qed

lemma addElements_same:
  "length (pswpContainer g) = length (collection g) \<Longrightarrow>
   pswpContainer (stateOf (addElements rows g)) = pswpContainer g \<and>
   collection (stateOf (addElements rows g)) = collection g"
  by (auto simp: addElements_def Let_def split: option.splits)

lemma addElements_inv:
  assumes "disclosureInv g"
  shows "disclosureInv (stateOf (addElements rows g))"
proof (cases "length (pswpContainer g) = length (collection g)")
  case True
  then show ?thesis using assms addElements_same[OF True, of rows]
    by (simp add: disclosureInv_def materializedPrefix_def)
next
  case False
  let ?c = "collection g"
  let ?k = "length (pswpContainer g)"
  let ?xs = "drop ?k ?c"
  let ?P = "\<lambda>it. jlt (Num (of_nat (row it))) (lastRowOf rows ?k ?c)"
  let ?g' = "stateOf (addElements rows g)"
  have pre: "pswpContainer g = map itemFields (take ?k ?c)" and srt: "sorted (map row ?c)"
    using assms by (auto simp: disclosureInv_def materializedPrefix_def)
  have lt: "?k < length ?c"
    using False materializedPrefix_length[of g] assms by (simp add: disclosureInv_def)
  have "sorted (map row ?xs)" using srt by (simp add: drop_map[symmetric])
  then have ftw: "filter ?P ?xs = takeWhile ?P ?xs"
  proof (rule sorted_filter_takeWhile)
    fix x y :: "'a item"
    assume "row x \<le> row y" and "?P y"
    then show "?P x" using jlt_antimono[of "of_nat (row x)" "of_nat (row y)"] by simp
  qed
  define m where "m = length (takeWhile ?P ?xs)"
  have mle: "m \<le> length ?xs" unfolding m_def by (rule length_takeWhile_le)
  have tk: "filter ?P ?xs = take m ?xs"
    unfolding m_def ftw by (simp add: takeWhile_eq_take[symmetric])
  have "pswpContainer ?g' = map itemFields (take ?k ?c) @ map itemFields (take m ?xs)"
    using addElements_reveal(2)[OF lt, of rows] pre tk by simp
  also have "\<dots> = map itemFields (take (?k + m) ?c)"
    by (simp add: take_add)
  finally have p: "pswpContainer ?g' = map itemFields (take (?k + m) ?c)" .
  have len: "length (pswpContainer ?g') = ?k + m"
    unfolding p using mle lt by simp
  have c: "collection ?g' = ?c" using addElements_reveal(3)[OF lt, of rows] .
  show ?thesis using p len c srt by (simp add: disclosureInv_def materializedPrefix_def)
qed

lemma organize_inv:
  assumes "materializedPrefix g" and "monotoneLayout lay"
  shows "disclosureInv (organize lay g)"
  using assms organize_sorted[of lay g]
  by (simp add: disclosureInv_def materializedPrefix_alt)

lemma reset_inv: "sorted (map row (collection g)) \<Longrightarrow> disclosureInv (reset g)"
  by (simp add: disclosureInv_def materializedPrefix_def reset_def)

lemma append_prefix:
  assumes "materializedPrefix g"
  shows "materializedPrefix (g\<lparr>collection := collection g @ ys\<rparr>)"
proof -
  have "length (pswpContainer g) \<le> length (collection g)"
    using assms by (rule materializedPrefix_length)
  then show ?thesis using assms by (simp add: materializedPrefix_def)
qed

lemma addItems_inv:
  assumes "disclosureInv g" and "monotoneLayout lay"
  shows "disclosureInv (stateOf (addItems lay d items g))"
proof (cases items)
  case (JArray xs)
  show ?thesis
  proof (cases "xs = []")
    case True
    then show ?thesis using assms JArray by (simp add: addItems_def)
  next
    case False
    let ?g1 = "g\<lparr>collection := collection g @ map (\<lambda>f. \<lparr>itemFields = f, row = 0\<rparr>) xs\<rparr>"
    have "materializedPrefix g" using assms(1) by (simp add: disclosureInv_def)
    then have "materializedPrefix ?g1" by (rule append_prefix)
    then have i2: "disclosureInv (organize lay ?g1)" using assms(2) by (rule organize_inv)
    then have "disclosureInv (stateOf (addElements rows (organize lay ?g1)))" for rows
      by (rule addElements_inv)
    then show ?thesis using i2 JArray False by (simp add: addItems_def Let_def)
  qed
next
  case (JOther b)
  then show ?thesis using assms by (simp add: addItems_def)
next
  case JNullish
  then show ?thesis using assms by (simp add: addItems_def)
qed

lemma resize_inv:
  assumes "disclosureInv g" and "monotoneLayout lay"
  shows "disclosureInv (stateOf (resize lay d g))"
proof (cases "of_int \<lfloor>bodyRectWidth d\<rfloor> = bodyWidth g")
  case True
  then show ?thesis using assms by (simp add: resize_def)
next
  case False
  let ?g2 = "organize lay (g\<lparr>bodyWidth := of_int \<lfloor>bodyRectWidth d\<rfloor>\<rparr>)"
  have "sorted (map row (collection ?g2))" using assms(2) by (rule organize_sorted)
  then have "disclosureInv (reset ?g2)" by (rule reset_inv)
  then have "disclosureInv (stateOf (addElements rows (reset ?g2)))" for rows
    by (rule addElements_inv)
  then show ?thesis using False by (simp add: resize_def Let_def)
qed

lemma step_inv:
  assumes "disclosureInv g" and "monotoneLayout lay"
  shows "disclosureInv (stateOf (step lay c g))"
proof (cases c)
  case (AddItems items d)
  then show ?thesis using assms by (simp add: addItems_inv)
next
  case (AddElements rows)
  then show ?thesis using assms by (simp add: addElements_inv)
next
  case (Resize d)
  then show ?thesis using assms by (simp add: resize_inv)
next
  case Reset
  then show ?thesis using assms reset_inv[of g] by (simp add: disclosureInv_def)
qed

lemma run_inv:
  "disclosureInv g \<Longrightarrow> monotoneLayout lay \<Longrightarrow> disclosureInv (run lay cs g)"
  by (induction cs arbitrary: g) (simp_all add: step_inv)

lemma pagination_state [simp]:
  "pswpContainer (pagination sim d nb g) = pswpContainer g"
  "collection (pagination sim d nb g) = collection g"
  by (simp_all add: pagination_def Let_def)

lemma pagination_inv: "disclosureInv g \<Longrightarrow> disclosureInv (pagination sim d nb g)"
  by (simp add: disclosureInv_def materializedPrefix_def)

lemma constructor_blank:
  "constructor lay sim d opts hook imgs vis tot images =
     (if truthy images then setCollection lay d images (blank opts hook (of_int \<lfloor>bodyRectWidth d\<rfloor>) imgs vis tot)
      else Returned (pagination sim d None (blank opts hook (of_int \<lfloor>bodyRectWidth d\<rfloor>) imgs vis tot)))"
  unfolding constructor_def blank_def Let_def ..

lemma blank_inv: "disclosureInv (blank opts hook w imgs vis tot)"
  by (simp add: disclosureInv_def materializedPrefix_def blank_def)

lemma constructor_inv:
  assumes "monotoneLayout lay"
  shows "disclosureInv (stateOf (constructor lay sim d opts hook imgs vis tot images))"
proof (cases "truthy images")
  case True
  let ?g = "blank opts hook (of_int \<lfloor>bodyRectWidth d\<rfloor>) imgs vis tot :: 'a gallery"
  have "disclosureInv ((reset ?g)\<lparr>collection := []\<rparr>)"
    by (simp add: disclosureInv_def materializedPrefix_def reset_def)
  then have "disclosureInv (stateOf (setCollection lay d images ?g))"
    unfolding setCollection_def using assms by (rule addItems_inv)
  then show ?thesis using True by (simp only: constructor_blank if_True)
next
  case False
  then show ?thesis using pagination_inv[OF blank_inv]
    by (simp only: constructor_blank if_False stateOf.simps)
qed

lemma monotone_gridLayout: "monotoneLayout gridLayout"
  by (simp add: monotoneLayout_def gridLayout_def div_le_mono)

text \<open>
  Claim C2. If the layout never gives a later item an earlier row, then after the
  constructor and any sequence of calls of \<open>addItems\<close>, \<open>addElements\<close>, \<open>resize\<close> and
  \<open>reset\<close>, with any arguments and any page, the materialized set is the prefix of the
  collection of its own length.
\<close>

theorem materialized_prefix_invariant:
  assumes "monotoneLayout lay"
  shows "materializedPrefix
           (run lay calls (stateOf (constructor lay sim d opts hook imgs vis tot images)))"
  using run_inv[OF constructor_inv[OF assms] assms] by (simp add: disclosureInv_def)

text \<open>The theorem for the grid layout, a gallery built from six items and five calls.\<close>

theorem materialized_prefix_invariant_witness:
  "monotoneLayout gridLayout
   \<and> materializedPrefix
        (run gridLayout
           [AddElements (Some (Num 1)), Resize (pageOfWidth 400),
            AddItems (JArray [7, 8]) (pageOfWidth 400), Reset, AddElements None]
           (stateOf (constructor gridLayout (\<lambda>g. Num 3) (pageOfWidth 200) defaultOptions True
                       None None None (JArray [1, 2, 3, 4, 5, 6]))))"
  by (rule conjI [OF monotone_gridLayout materialized_prefix_invariant [OF monotone_gridLayout]])

section \<open>Rows per page\<close>

lemma jlt_irrefl: "\<not> jlt x x"
  by (cases x) auto

lemma double_zero: "double 0 = Num 0"
  by (simp add: double_def)

lemma double_two: "double 2 = Num 2"
  by code_simp

lemma double_three: "double 3 = Num 3"
  by code_simp

lemma rows_scenario:
  "jfloor (fdiv (fsub (double 800) (double 100)) (fmul (double 350) (double (7 / 10)))) = Num 2"
  by code_simp

lemma page2: "getRowsPerPage defaultOptions (pageOfWidth w) = Num 2"
  unfolding getRowsPerPage_def defaultOptions_def pageOfWidth_def
  by (simp add: double_zero double_two rows_scenario Let_def)

text \<open>
  Claim C5, as the code has it. \<open>getRowsPerPage\<close> returns \<open>limit\<close> when it is not zero.
  When it is zero, it returns \<open>Math.floor\<close> of the viewport height minus the offset of the
  gallery, divided by \<open>rowHeight * 0.7\<close>, where the difference, the product and the
  quotient are each rounded to a double and \<open>0.7\<close> is the double nearest to \<open>7/10\<close>; or
  \<open>minRowsAtStart\<close> when the floor is below it, so that the result is never below
  \<open>minRowsAtStart\<close>. With a viewport height of \<open>800\<close>, an offset of \<open>100\<close>, a row height
  of \<open>350\<close> and \<open>minRowsAtStart = 2\<close> it returns \<open>2\<close>.
\<close>

theorem getRowsPerPage_doubles:
  "(double (limit opts) \<noteq> Num 0 \<longrightarrow> getRowsPerPage opts d = double (limit opts))
   \<and> (double (limit opts) = Num 0 \<longrightarrow>
        getRowsPerPage opts d =
          (if jlt (jfloor (fdiv (fsub (double (winHeight d)) (double (bodyOffsetTop d)))
                            (fmul (double (rowHeight opts)) (double (7 / 10)))))
                (double (minRowsAtStart opts))
           then double (minRowsAtStart opts)
           else jfloor (fdiv (fsub (double (winHeight d)) (double (bodyOffsetTop d)))
                          (fmul (double (rowHeight opts)) (double (7 / 10)))))
        \<and> \<not> jlt (getRowsPerPage opts d) (double (minRowsAtStart opts)))
   \<and> getRowsPerPage \<lparr>rowHeight = 350, limit = 0, minRowsAtStart = 2\<rparr>
         \<lparr>winHeight = 800, bodyOffsetTop = 100, bodyRectWidth = w, rootOffsetTop = t,
          rootOffsetHeight = h, wrapperScrollTop = s, wrapperClientTop = ct,
          wrapperClientHeight = ch\<rparr> = Num 2"
proof (intro conjI impI)
  assume "double (limit opts) \<noteq> Num 0"
  then show "getRowsPerPage opts d = double (limit opts)" by (simp add: getRowsPerPage_def)
next
  assume z: "double (limit opts) = Num 0"
  then show "getRowsPerPage opts d =
          (if jlt (jfloor (fdiv (fsub (double (winHeight d)) (double (bodyOffsetTop d)))
                            (fmul (double (rowHeight opts)) (double (7 / 10)))))
                (double (minRowsAtStart opts))
           then double (minRowsAtStart opts)
           else jfloor (fdiv (fsub (double (winHeight d)) (double (bodyOffsetTop d)))
                          (fmul (double (rowHeight opts)) (double (7 / 10)))))"
    by (simp add: getRowsPerPage_def Let_def)
  from z show "\<not> jlt (getRowsPerPage opts d) (double (minRowsAtStart opts))"
    by (simp add: getRowsPerPage_def Let_def jlt_irrefl)
next
  show "getRowsPerPage \<lparr>rowHeight = 350, limit = 0, minRowsAtStart = 2\<rparr>
         \<lparr>winHeight = 800, bodyOffsetTop = 100, bodyRectWidth = w, rootOffsetTop = t,
          rootOffsetHeight = h, wrapperScrollTop = s, wrapperClientTop = ct,
          wrapperClientHeight = ch\<rparr> = Num 2"
    unfolding getRowsPerPage_def
    by (simp add: double_zero double_two rows_scenario Let_def)
qed

text \<open>The theorem at a fixed page size of \<open>3\<close> and at the default options.\<close>

theorem getRowsPerPage_doubles_witness:
  "double (limit (defaultOptions\<lparr>limit := 3\<rparr>)) \<noteq> Num 0
   \<and> getRowsPerPage (defaultOptions\<lparr>limit := 3\<rparr>) (pageOfWidth 1000) = Num 3
   \<and> double (limit defaultOptions) = Num 0
   \<and> getRowsPerPage defaultOptions (pageOfWidth 1000) = Num 2
   \<and> \<not> jlt (getRowsPerPage defaultOptions (pageOfWidth 1000))
         (double (minRowsAtStart defaultOptions))"
proof -
  have h1: "double (limit (defaultOptions\<lparr>limit := 3\<rparr>)) \<noteq> Num 0"
    by (simp add: defaultOptions_def double_three)
  have h2: "double (limit defaultOptions) = Num 0"
    by (simp add: defaultOptions_def double_zero)
  have a: "getRowsPerPage (defaultOptions\<lparr>limit := 3\<rparr>) (pageOfWidth 1000) = Num 3"
    using getRowsPerPage_doubles [of "defaultOptions\<lparr>limit := 3\<rparr>" "pageOfWidth 1000"] h1
    by (simp add: defaultOptions_def double_three)
  have b: "\<not> jlt (getRowsPerPage defaultOptions (pageOfWidth 1000))
             (double (minRowsAtStart defaultOptions))"
    using getRowsPerPage_doubles [of defaultOptions "pageOfWidth 1000"] h2 by blast
  show ?thesis by (intro conjI h1 h2 a b page2)
qed

text \<open>
  Claim C5 as it is stated, with the quotient taken exactly, fails. Let the row height be
  the double nearest to \<open>100.4\<close>, the viewport \<open>1857\<close> high and the gallery \<open>100\<close> below its
  top. The code returns \<open>25\<close>: the product \<open>rowHeight * 0.7\<close> rounds to a double just below
  the exact one. The floor of the exact quotient is \<open>24\<close>.
\<close>

theorem getRowsPerPage_exact_counterexample:
  "double (3532510957718733 / 35184372088832) = Num (3532510957718733 / 35184372088832)
   \<and> getRowsPerPage
         \<lparr>rowHeight = 3532510957718733 / 35184372088832, limit = 0, minRowsAtStart = 2\<rparr>
         \<lparr>winHeight = 1857, bodyOffsetTop = 100, bodyRectWidth = 1000, rootOffsetTop = 100,
          rootOffsetHeight = 0, wrapperScrollTop = 0, wrapperClientTop = 0,
          wrapperClientHeight = 1857\<rparr> = Num 25
   \<and> max 2 (rat_of_int
         \<lfloor>(1857 - 100) / (3532510957718733 / 35184372088832 * (7 / 10) :: rat)\<rfloor>) = 24"
  by code_simp

text \<open>The same with a row height written as \<open>33.2\<close>, a viewport \<open>681\<close> high and the same
  offset: the code reads the double nearest to \<open>33.2\<close> and returns \<open>24\<close>, where the exact
  quotient \<open>581 / 23.24\<close> is \<open>25\<close>.\<close>

lemma getRowsPerPage_decimal_example:
  "getRowsPerPage \<lparr>rowHeight = 166 / 5, limit = 0, minRowsAtStart = 2\<rparr>
     \<lparr>winHeight = 681, bodyOffsetTop = 100, bodyRectWidth = 1000, rootOffsetTop = 100,
      rootOffsetHeight = 0, wrapperScrollTop = 0, wrapperClientTop = 0,
      wrapperClientHeight = 681\<rparr> = Num 24
   \<and> max 2 (rat_of_int \<lfloor>(681 - 100) / (166 / 5 * (7 / 10) :: rat)\<rfloor>) = 25"
  by code_simp

section \<open>Calling \<open>addElements\<close> without an argument\<close>

lemma addElements_past_end:
  "length (collection g) < length (pswpContainer g) \<Longrightarrow>
   addElements rows g = Threw TypeError (g\<lparr>nextButton := Block\<rparr>)"
  by (auto simp: addElements_def Let_def)

lemma lastRowOf_null:
  "lastRowOf None k c = Num (of_nat (if k \<noteq> 0 then row (c ! k) else 0))"
  by (simp add: lastRowOf_def)

text \<open>
  Claim C10, as the code has it. Let the rows of the collection never decrease. Then
  \<open>addElements()\<close>, whose
  argument defaults to \<open>null\<close>, materializes nothing and leaves the collection as it is,
  whatever is materialized already: the bound is the row of the first unmaterialized item,
  or \<open>null\<close>, read as \<open>0\<close>, when nothing is materialized, and no remaining row is below
  it. When some item is unmaterialized the call still returns with the empty-state element
  hidden.
\<close>

theorem addElements_default_reveals_nothing:
  assumes "sorted (map row (collection g))"
  shows "pswpContainer (stateOf (addElements None g)) = pswpContainer g
         \<and> collection (stateOf (addElements None g)) = collection g
         \<and> (length (pswpContainer g) < length (collection g) \<longrightarrow>
              returned (addElements None g)
              \<and> noResults (stateOf (addElements None g)) = NoDisplay)"
proof -
  let ?c = "collection g"
  let ?k = "length (pswpContainer g)"
  consider (eq) "?k = length ?c" | (gt) "length ?c < ?k" | (lt) "?k < length ?c"
    by linarith
  then show ?thesis
  proof cases
    case eq
    then show ?thesis using addElements_same[OF eq, of None] by simp
  next
    case gt
    then show ?thesis by (simp add: addElements_past_end)
  next
    case lt
    let ?P = "\<lambda>it. jlt (Num (of_nat (row it))) (lastRowOf None ?k ?c)"
    have "\<not> ?P it" if "it \<in> set (drop ?k ?c)" for it
    proof (cases "?k = 0")
      case True
      then show ?thesis by (simp add: lastRowOf_null)
    next
      case False
      from that obtain i where i: "i < length (drop ?k ?c)" "it = drop ?k ?c ! i"
        by (auto simp: in_set_conv_nth)
      then have it: "it = ?c ! (?k + i)" and b: "?k + i < length ?c" by auto
      have "map row ?c ! ?k \<le> map row ?c ! (?k + i)"
        using assms b by (simp only: sorted_iff_nth_mono length_map le_add1)
      then have "row (?c ! ?k) \<le> row it" using it b lt by simp
      then show ?thesis using False by (simp add: lastRowOf_null)
    qed
    then have "filter ?P (drop ?k ?c) = []" by (simp add: filter_empty_conv)
    then show ?thesis
      using addElements_reveal[OF lt, of None] by simp
  qed
qed

text \<open>The theorem at a gallery of three items of which one is materialized.\<close>

theorem addElements_default_reveals_nothing_witness:
  "sorted (map row (collection (galleryShowing
       [\<lparr>itemFields = 0, row = 0\<rparr>, \<lparr>itemFields = 1, row = 0\<rparr>, \<lparr>itemFields = 2, row = 1\<rparr>] 1)))
   \<and> length (pswpContainer (galleryShowing
       [\<lparr>itemFields = 0, row = 0\<rparr>, \<lparr>itemFields = 1, row = 0\<rparr>, \<lparr>itemFields = 2, row = 1\<rparr>] 1))
       < length (collection (galleryShowing
       [\<lparr>itemFields = 0, row = 0\<rparr>, \<lparr>itemFields = 1, row = 0\<rparr>, \<lparr>itemFields = 2, row = 1\<rparr>] 1))
   \<and> pswpContainer (stateOf (addElements None (galleryShowing
       [\<lparr>itemFields = 0, row = 0\<rparr>, \<lparr>itemFields = 1, row = 0\<rparr>, \<lparr>itemFields = 2, row = 1\<rparr>] 1))) = [0]
   \<and> returned (addElements None (galleryShowing
       [\<lparr>itemFields = 0, row = 0\<rparr>, \<lparr>itemFields = 1, row = 0\<rparr>, \<lparr>itemFields = 2, row = 1\<rparr>] 1))
   \<and> noResults (stateOf (addElements None (galleryShowing
       [\<lparr>itemFields = 0, row = 0\<rparr>, \<lparr>itemFields = 1, row = 0\<rparr>, \<lparr>itemFields = 2, row = 1\<rparr>] 1))) = NoDisplay"
proof -
  let ?G = "galleryShowing
       [\<lparr>itemFields = 0, row = 0\<rparr>, \<lparr>itemFields = 1, row = 0\<rparr>, \<lparr>itemFields = 2, row = 1\<rparr>] 1"
  have h1: "sorted (map row (collection ?G))" by (simp add: galleryShowing_def)
  have h2: "length (pswpContainer ?G) < length (collection ?G)" by (simp add: galleryShowing_def)
  have p: "pswpContainer ?G = [0]" by (simp add: galleryShowing_def)
  show ?thesis
    using addElements_default_reveals_nothing [OF h1] h1 h2 p by simp
qed

text \<open>
  Claim C10 as it is stated, for every collection and every state, fails twice. A gallery
  built from an empty array is empty, and on it \<open>addElements()\<close> shows the empty-state
  element instead of hiding it. And where a later item has an earlier row the call does
  materialize: with rows \<open>0\<close>, \<open>1\<close>, \<open>0\<close> and the first item shown, the bound is row \<open>1\<close>
  and the third item is pushed.
\<close>

lemma constructor_empty:
  "constructor gridLayout sim (pageOfWidth 200) defaultOptions True None None None (JArray [])
     = Returned (galleryShowing [] 0)"
  by (simp add: constructor_def setCollection_def addItems_def reset_def galleryShowing_def
      pageOfWidth_def)

theorem addElements_default_counterexample:
  "constructor gridLayout (\<lambda>g. Num 3) (pageOfWidth 200) defaultOptions True None None None
     (JArray []) = Returned (galleryShowing [] 0)
   \<and> noResults (stateOf (addElements None (galleryShowing [] 0))) = Block
   \<and> pswpContainer (galleryShowing
         [\<lparr>itemFields = 0, row = 0\<rparr>, \<lparr>itemFields = 1, row = 1\<rparr>, \<lparr>itemFields = 2, row = 0\<rparr>] 1)
       = [0]
   \<and> pswpContainer (stateOf (addElements None (galleryShowing
         [\<lparr>itemFields = 0, row = 0\<rparr>, \<lparr>itemFields = 1, row = 1\<rparr>, \<lparr>itemFields = 2, row = 0\<rparr>] 1)))
       = [0, 2]"
proof -
  let ?G = "galleryShowing
         [\<lparr>itemFields = 0, row = 0\<rparr>, \<lparr>itemFields = 1, row = 1\<rparr>, \<lparr>itemFields = 2, row = 0\<rparr>] 1"
  have e: "noResults (stateOf (addElements None (galleryShowing [] 0))) = Block"
    by (simp add: addElements_def galleryShowing_def Let_def)
  have p: "pswpContainer ?G = [0]" by (simp add: galleryShowing_def)
  have lt: "length (pswpContainer ?G) < length (collection ?G)"
    by (simp add: galleryShowing_def)
  have m: "pswpContainer (stateOf (addElements None ?G)) = [0, 2]"
    unfolding addElements_reveal(2)[OF lt]
    by (simp add: galleryShowing_def lastRowOf_def)
  show ?thesis by (intro conjI constructor_empty e p m)
qed

section \<open>Adding items\<close>

lemma jlt_jadd_pos: "jlt (Num 0) p \<Longrightarrow> jlt (Num r) (jadd (Num r) p)"
  by (cases p) auto

lemma addItems_array:
  "xs \<noteq> [] \<Longrightarrow>
   addItems lay d (JArray xs) g =
     (if length (collection g) = 0 \<or> length (collection g) = length (pswpContainer g)
      then addElements (Some (getRowsPerPage (options g) d))
             (organize lay (g\<lparr>collection := collection g @ map (\<lambda>f. \<lparr>itemFields = f, row = 0\<rparr>) xs\<rparr>))
      else Returned
             (organize lay (g\<lparr>collection := collection g @ map (\<lambda>f. \<lparr>itemFields = f, row = 0\<rparr>) xs\<rparr>)))"
  by (simp add: addItems_def Let_def)



text \<open>An empty array and a value that is not an array, \<open>null\<close> and \<open>undefined\<close> apart, are
  ignored: the call returns the gallery as it was.\<close>

lemma addItems_ignored:
  "addItems lay d (JArray []) g = Returned g" "addItems lay d (JOther b) g = Returned g"
  by (simp_all add: addItems_def)

text \<open>
  Claim C8 asks that every input that is not a non-empty array is ignored by a call that
  returns. For \<open>null\<close> and \<open>undefined\<close> the test \<open>items.constructor === Array\<close> throws a
  \<open>TypeError\<close> instead; the gallery is unchanged all the same.
\<close>

theorem addItems_null_throws: "addItems lay d JNullish g = Threw TypeError g"
  by (simp add: addItems_def)

section \<open>The size of a pagination request\<close>

lemma stepwise_snoc:
  "stepwise (rs @ [r]) \<longleftrightarrow> stepwise rs \<and> (rs = [] \<or> r = last rs \<or> r = Suc (last rs))"
  by (induction rs rule: stepwise.induct) auto

lemma layoutRows_snoc:
  "layoutRows (rs @ [r]) \<longleftrightarrow>
     layoutRows rs \<and> (if rs = [] then r = 0 else r = last rs \<or> r = Suc (last rs))"
proof (cases rs)
  case Nil
  then show ?thesis by (simp add: layoutRows_def)
next
  case (Cons a list)
  have "layoutRows (rs @ [r]) \<longleftrightarrow> a = 0 \<and> stepwise (rs @ [r])"
    using Cons by (simp add: layoutRows_def)
  moreover have "layoutRows rs \<longleftrightarrow> a = 0 \<and> stepwise rs"
    using Cons by (simp add: layoutRows_def)
  moreover have "rs \<noteq> []" using Cons by simp
  ultimately show ?thesis using stepwise_snoc[of rs r] by auto
qed

lemma layoutRows_set: "layoutRows rs \<Longrightarrow> rs \<noteq> [] \<Longrightarrow> set rs = {0..last rs}"
  using stepwise_set by (cases rs) (auto simp: layoutRows_def)

lemma nbPerRowFn_snoc:
  "nbPerRowFn (arr @ [e]) =
     stackSet (row e)
       (case stackGet (nbPerRowFn arr) (row e) of Some c \<Rightarrow> c + 1 | None \<Rightarrow> 1)
       (nbPerRowFn arr)"
  by (simp add: nbPerRowFn_def)

lemma rowCounts_same:
  assumes "layoutRows rs" and "rs \<noteq> []"
  shows "stackSet (last rs)
           (case stackGet (rowCounts rs) (last rs) of Some c \<Rightarrow> c + 1 | None \<Rightarrow> 1)
           (rowCounts rs) = rowCounts (rs @ [last rs])"
  using assms
  by (intro nth_equalityI) (auto simp: rowCounts_def stackSet_def stackGet_def nth_list_update
      simp del: upt_Suc)

lemma rowCounts_next:
  assumes "layoutRows rs" and "rs \<noteq> []"
  shows "stackSet (Suc (last rs))
           (case stackGet (rowCounts rs) (Suc (last rs)) of Some c \<Rightarrow> c + 1 | None \<Rightarrow> 1)
           (rowCounts rs) = rowCounts (rs @ [Suc (last rs)])"
proof -
  have "Suc (last rs) \<notin> set rs" using layoutRows_set[OF assms] by simp
  then have z: "count_list rs (Suc (last rs)) = 0" by simp
  have ne: "\<And>r. r < Suc (last rs) \<Longrightarrow> Suc (last rs) \<noteq> r" by simp
  show ?thesis using assms z
    by (auto simp: rowCounts_def stackSet_def stackGet_def)
qed

lemma nbPerRowFn_rowCounts:
  "layoutRows (map row arr) \<Longrightarrow> nbPerRowFn arr = rowCounts (map row arr)"
proof (induction arr rule: rev_induct)
  case Nil
  then show ?case by (simp add: nbPerRowFn_def rowCounts_def)
next
  case (snoc e arr)
  then have lr: "layoutRows (map row arr)"
    and st: "if map row arr = [] then row e = 0
             else row e = last (map row arr) \<or> row e = Suc (last (map row arr))"
    by (simp_all add: layoutRows_snoc)
  have IH: "nbPerRowFn arr = rowCounts (map row arr)" using snoc.IH lr by simp
  show ?case
  proof (cases "arr = []")
    case True
    then show ?thesis using st
      by (simp add: nbPerRowFn_def rowCounts_def stackSet_def stackGet_def)
  next
    case False
    then have ne: "map row arr \<noteq> []" by simp
    from st ne consider "row e = last (map row arr)" | "row e = Suc (last (map row arr))"
      by auto
    then show ?thesis
    proof cases
      case 1
      then show ?thesis
        using rowCounts_same[OF lr ne] by (simp add: nbPerRowFn_snoc IH)
    next
      case 2
      then show ?thesis
        using rowCounts_next[OF lr ne] by (simp add: nbPerRowFn_snoc IH)
    qed
  qed
qed

lemma mathMax_Some:
  "mathMax (map Some cs) = (if cs = [] then NegInf else Num (of_nat (Max (set cs))))"
proof (induction cs)
  case Nil
  then show ?case by simp
next
  case (Cons c cs)
  then show ?case by (cases "cs = []") (simp_all add: of_nat_max)
qed

lemma getMaxImagesPerRow_layout:
  assumes "layoutRows (map row (collection g))" and "collection g \<noteq> []"
  shows "getMaxImagesPerRow g = Num (of_nat (maxPerRow (collection g)))"
proof -
  let ?rs = "map row (collection g)"
  let ?h = "\<lambda>r. count_list ?rs r"
  have ne: "?rs \<noteq> []" using assms(2) by simp
  have nb: "nbPerRowFn (collection g) = map Some (map ?h [0..<Suc (last ?rs)])"
    using nbPerRowFn_rowCounts[OF assms(1)] ne by (simp add: rowCounts_def comp_def)
  have "getMaxImagesPerRow g = mathMax (map Some (map ?h [0..<Suc (last ?rs)]))"
    unfolding getMaxImagesPerRow_def nb ..
  also have "\<dots> = Num (of_nat (Max (set (map ?h [0..<Suc (last ?rs)]))))"
    by (subst mathMax_Some) simp
  finally have "getMaxImagesPerRow g = Num (of_nat (Max (set (map ?h [0..<Suc (last ?rs)]))))" .
  moreover have "set (map ?h [0..<Suc (last ?rs)]) = ?h ` set ?rs"
    using layoutRows_set[OF assms(1) ne] by (simp add: atLeastLessThanSuc_atLeastAtMost del: upt_Suc)
  ultimately show ?thesis using assms(2) by (simp add: maxPerRow_def)
qed



text \<open>A row index that no item has leaves a hole in the array of counts, and the maximum
  is NaN: this is why the rows must skip none.\<close>

lemma getMaxImagesPerRow_hole:
  "getMaxImagesPerRow (galleryShowing [\<lparr>itemFields = 0, row = 0\<rparr>, \<lparr>itemFields = 1, row = 2\<rparr>] 0)
     = NaN"
  by (simp add: getMaxImagesPerRow_def nbPerRowFn_def stackSet_def stackGet_def
      galleryShowing_def)

section \<open>The state after a reveal\<close>

lemma revealLoop_more [simp]: "gallery.more (revealLoop b xs g) = gallery.more g"
  by (induction xs arbitrary: g) (auto simp: Let_def)

lemma addElements_reveal_state:
  assumes "length (pswpContainer g) < length (collection g)"
      and "shown =
             pswpContainer g @ map itemFields
               (filter (\<lambda>it. jlt (Num (of_nat (row it)))
                          (lastRowOf rows (length (pswpContainer g)) (collection g)))
                  (drop (length (pswpContainer g)) (collection g)))"
  shows "addElements rows g =
           Returned
             (g\<lparr>pswpContainer := shown,
                nextButton := (if length shown = length (collection g)
                               then NoDisplay else Block),
                noResults := NoDisplay,
                imagesContainer := (case imagesContainer g of None \<Rightarrow> None | Some x \<Rightarrow> Some Block),
                galleryVisible :=
                  (case galleryVisible g of None \<Rightarrow> None | Some x \<Rightarrow> Some (length shown)),
                galleryTotal :=
                  (case galleryTotal g of None \<Rightarrow> None
                   | Some x \<Rightarrow> Some (length (collection g)))\<rparr>)"
proof -
  let ?r = "addElements rows g"
  let ?g' = "stateOf ?r"
  have lt: "length (pswpContainer g) < length (collection g)" by (rule assms(1))
  have ne: "length (pswpContainer g) \<noteq> length (collection g)"
    and le: "\<not> length (collection g) \<le> length (pswpContainer g)"
    using lt by simp_all
  have r: "?r = Returned ?g'"
    using addElements_reveal(1)[OF lt, of rows] by (cases ?r) auto
  have p: "pswpContainer ?g' = shown"
    unfolding assms(2) using lt by (rule addElements_reveal(2))
  have nb: "nextButton ?g' = (if length shown = length (collection g)
                               then NoDisplay else Block)"
    using addElements_reveal_nextButton[OF lt, of rows] unfolding p .
  have c: "collection ?g' = collection g" and n: "noResults ?g' = NoDisplay"
    using addElements_reveal(3,4)[OF lt, of rows] by simp_all
  have rest: "options ?g' = options g" "hasPagination ?g' = hasPagination g"
    "paginationLog ?g' = paginationLog g" "old_scroll_top ?g' = old_scroll_top g"
    "bodyWidth ?g' = bodyWidth g" "gallery.more ?g' = gallery.more g"
    "imagesContainer ?g' = (case imagesContainer g of None \<Rightarrow> None | Some x \<Rightarrow> Some Block)"
    "galleryTotal ?g' = (case galleryTotal g of None \<Rightarrow> None | Some x \<Rightarrow> Some (length (collection g)))"
    by (simp_all add: addElements_def Let_def ne le split: option.splits)
  have "galleryVisible ?g' = (case galleryVisible g of None \<Rightarrow> None
                   | Some x \<Rightarrow> Some (length (pswpContainer ?g')))"
    by (simp add: addElements_def Let_def ne le split: option.splits)
  then have vis: "galleryVisible ?g' = (case galleryVisible g of None \<Rightarrow> None
                   | Some x \<Rightarrow> Some (length shown))"
    unfolding p .
  have eq: "?g' = g\<lparr>pswpContainer := shown,
                nextButton := (if length shown = length (collection g)
                               then NoDisplay else Block),
                noResults := NoDisplay,
                imagesContainer := (case imagesContainer g of None \<Rightarrow> None | Some x \<Rightarrow> Some Block),
                galleryVisible :=
                  (case galleryVisible g of None \<Rightarrow> None | Some x \<Rightarrow> Some (length shown)),
                galleryTotal :=
                  (case galleryTotal g of None \<Rightarrow> None
                   | Some x \<Rightarrow> Some (length (collection g)))\<rparr>"
    by (rule gallery.equality) (simp_all add: nb c n rest vis p)
  show ?thesis by (subst eq[symmetric]) (rule r)
qed

lemma addElements_returns:
  assumes "length (pswpContainer g) \<le> length (collection g)"
      and "collection g \<noteq> [] \<or> imagesContainer g \<noteq> None"
  shows "returned (addElements rows g)"
proof (cases "length (pswpContainer g) = length (collection g)")
  case True
  then show ?thesis using assms(2)
    by (auto simp: addElements_def Let_def split: option.splits)
next
  case False
  then have "length (pswpContainer g) < length (collection g)" using assms(1) by simp
  then show ?thesis by (rule addElements_reveal(1))
qed

text \<open>
  Claim C9 asks that no reveal throws. \<open>addElements\<close> returns whenever the collection is
  not empty or the page has an element of class \<open>natural-gallery-images\<close>
  (\<open>addElements_returns\<close>). On an empty collection without such an element it throws: a
  gallery built from an empty array, with the default options and no counting element, is
  such a state, and \<open>addElements(1)\<close> on it ends in a \<open>TypeError\<close>.
\<close>

theorem addElements_empty_throws:
  "constructor gridLayout (\<lambda>g. Num 3) (pageOfWidth 200) defaultOptions True None None None
     (JArray []) = Returned (galleryShowing [] 0)
   \<and> collection (galleryShowing [] 0) = []
   \<and> addElements (Some (Num 1)) (galleryShowing [] 0) = Threw TypeError (galleryShowing [] 0)"
  using constructor_empty [of "\<lambda>g. Num 3"]
  by (simp add: addElements_def galleryShowing_def Let_def)

section \<open>Scrolling\<close>

text \<open>A scroll event that is not downward, or that does not reach the end of the gallery,
  only records the offset. One that is downward and reaches the end records the offset,
  calls \<open>addElements(1)\<close> and, if that returns, \<open>pagination(1)\<close>.\<close>

lemma onScroll_quiet:
  "\<not> (0 < wrapperScrollTop d - wrapperClientTop d - old_scroll_top g
      \<and> rootOffsetTop d + rootOffsetHeight d
          \<le> wrapperScrollTop d - wrapperClientTop d + wrapperClientHeight d) \<Longrightarrow>
   onScroll sim d g = Returned (g\<lparr>old_scroll_top := wrapperScrollTop d - wrapperClientTop d\<rparr>)"
  by (auto simp: onScroll_def Let_def)

lemma onScroll_fires:
  assumes "0 < wrapperScrollTop d - wrapperClientTop d - old_scroll_top g"
      and "rootOffsetTop d + rootOffsetHeight d
             \<le> wrapperScrollTop d - wrapperClientTop d + wrapperClientHeight d"
      and "addElements (Some (Num 1))
             (g\<lparr>old_scroll_top := wrapperScrollTop d - wrapperClientTop d\<rparr>) = Returned g2"
  shows "onScroll sim d g = Returned (pagination sim d (Some (Num 1)) g2)"
  using assms by (auto simp: onScroll_def Let_def)

text \<open>
  Claim C6 asks that every downward scroll that reaches the end of the gallery calls the
  pagination hook once. On the empty gallery above, a scroll from offset \<open>0\<close> to offset
  \<open>10\<close> is downward and reaches the end, but \<open>addElements(1)\<close> throws and the hook is not
  called: the log of its calls stays empty.
\<close>

theorem onScroll_empty_gallery_throws:
  "constructor gridLayout (\<lambda>g. Num 3) (pageOfWidth 200) defaultOptions True None None None
     (JArray []) = Returned (galleryShowing [] 0)
   \<and> hasPagination (galleryShowing [] 0)
   \<and> 0 < wrapperScrollTop ((pageOfWidth 200)\<lparr>wrapperScrollTop := 10\<rparr>)
         - old_scroll_top (galleryShowing [] 0)
   \<and> rootOffsetTop ((pageOfWidth 200)\<lparr>wrapperScrollTop := 10\<rparr>)
       + rootOffsetHeight ((pageOfWidth 200)\<lparr>wrapperScrollTop := 10\<rparr>)
       \<le> wrapperScrollTop ((pageOfWidth 200)\<lparr>wrapperScrollTop := 10\<rparr>)
          + wrapperClientHeight ((pageOfWidth 200)\<lparr>wrapperScrollTop := 10\<rparr>)
   \<and> onScroll (\<lambda>g. Num 3) ((pageOfWidth 200)\<lparr>wrapperScrollTop := 10\<rparr>) (galleryShowing [] 0)
       = Threw TypeError ((galleryShowing [] 0)\<lparr>old_scroll_top := 10\<rparr>)
   \<and> paginationLog (stateOf (onScroll (\<lambda>g. Num 3) ((pageOfWidth 200)\<lparr>wrapperScrollTop := 10\<rparr>)
         (galleryShowing [] 0))) = []"
  using constructor_empty [of "\<lambda>g. Num 3"]
  by (simp add: onScroll_def addElements_def galleryShowing_def pageOfWidth_def Let_def)

section \<open>Resizing\<close>

text \<open>\<open>resize\<close> does nothing when the width is the recorded one. Otherwise it lays the
  collection out again, and then reads the row of the last materialized item, in the new
  layout; it materializes the rows up to that one.\<close>

lemma resize_same_width:
  "of_int \<lfloor>bodyRectWidth d\<rfloor> = bodyWidth g \<Longrightarrow> resize lay d g = Returned g"
  by (simp add: resize_def)

lemma resize_changed:
  "of_int \<lfloor>bodyRectWidth d\<rfloor> \<noteq> bodyWidth g \<Longrightarrow>
   resize lay d g =
     addElements
       (Some (if 0 < length (pswpContainer g) \<and> length (pswpContainer g) \<le> length (collection g)
              then jadd (Num (of_nat (row (collection
                       (organize lay (g\<lparr>bodyWidth := of_int \<lfloor>bodyRectWidth d\<rfloor>\<rparr>))
                         ! (length (pswpContainer g) - 1))))) (Num 1)
              else getRowsPerPage (options g) d))
       (reset (organize lay (g\<lparr>bodyWidth := of_int \<lfloor>bodyRectWidth d\<rfloor>\<rparr>)))"
  by (simp add: resize_def Let_def)

lemma organize_as_update: "organize lay g = g\<lparr>collection := collection (organize lay g)\<rparr>"
  by (simp add: organize_def)

lemma organize_six:
  "collection (organize gridLayout ((galleryShowing sixItems 4)\<lparr>bodyWidth := 400\<rparr>)) =
     [\<lparr>itemFields = 0, row = 0\<rparr>, \<lparr>itemFields = 1, row = 0\<rparr>, \<lparr>itemFields = 2, row = 0\<rparr>,
      \<lparr>itemFields = 3, row = 0\<rparr>, \<lparr>itemFields = 4, row = 1\<rparr>, \<lparr>itemFields = 5, row = 1\<rparr>]"
proof -
  have fl: "nat \<lfloor>(400::rat) / 100\<rfloor> = 4" by simp
  show ?thesis
    by (simp add: organize_def galleryShowing_def sixItems_def enumerate_eq_zip upt_rec
        gridLayout_def fl)
qed

lemma addElements_six:
  "addElements (Some (Num 2))
     ((blank defaultOptions True 200 None None None)\<lparr>collection := sixItems\<rparr>)
     = Returned (galleryShowing sixItems 4)"
proof -
  let ?g = "(blank defaultOptions True 200 None None None)\<lparr>collection := sixItems\<rparr>"
  have lt: "length (pswpContainer ?g) < length (collection ?g)"
    by (simp add: blank_def sixItems_def)
  have p: "[0, 1, 2, 3] =
             pswpContainer ?g @ map itemFields
               (filter (\<lambda>it. jlt (Num (of_nat (row it)))
                          (lastRowOf (Some (Num 2)) (length (pswpContainer ?g)) (collection ?g)))
                  (drop (length (pswpContainer ?g)) (collection ?g)))"
    by (simp add: blank_def sixItems_def lastRowOf_def)
  show ?thesis
    unfolding addElements_reveal_state[OF lt p]
    by (simp add: blank_def sixItems_def galleryShowing_def)
qed

lemma constructor_six:
  "constructor gridLayout sim (pageOfWidth 200) defaultOptions True None None None
     (JArray [0, 1, 2, 3, 4, 5]) = Returned (galleryShowing sixItems 4)"
proof -
  let ?b = "blank defaultOptions True 200 None None None :: nat gallery"
  have fl: "nat \<lfloor>(200::rat) / 100\<rfloor> = 2" by simp
  have o: "collection (organize gridLayout
             (?b\<lparr>collection := map (\<lambda>f. \<lparr>itemFields = f, row = 0\<rparr>) [0, 1, 2, 3, 4, 5]\<rparr>)) = sixItems"
    by (simp add: organize_def blank_def sixItems_def enumerate_eq_zip upt_rec gridLayout_def fl)
  have g: "organize gridLayout
             (?b\<lparr>collection := map (\<lambda>f. \<lparr>itemFields = f, row = 0\<rparr>) [0, 1, 2, 3, 4, 5]\<rparr>)
           = ?b\<lparr>collection := sixItems\<rparr>"
    by (subst organize_as_update) (simp only: o, simp)
  have b: "(reset ?b)\<lparr>collection := []\<rparr> = ?b"
    by (simp add: reset_def blank_def)
  have w: "rat_of_int \<lfloor>bodyRectWidth (pageOfWidth 200)\<rfloor> = 200" by (simp add: pageOfWidth_def)
  have bo: "options ?b = defaultOptions" and bc: "collection ?b = []"
    by (simp_all add: blank_def)
  have ne: "[0, 1, 2, 3, 4, 5::nat] \<noteq> []" by simp
  have "constructor gridLayout sim (pageOfWidth 200) defaultOptions True None None None
          (JArray [0, 1, 2, 3, 4, 5])
        = addItems gridLayout (pageOfWidth 200) (JArray [0, 1, 2, 3, 4, 5]) ?b"
    unfolding constructor_blank w setCollection_def b by simp
  also have "\<dots> = addElements (Some (Num 2)) (?b\<lparr>collection := sixItems\<rparr>)"
    unfolding addItems_array[OF ne] bc bo page2
    by (simp only: list.size simp_thms if_True append_Nil g)
  finally show ?thesis by (simp only: addElements_six)
qed

lemma resize_six:
  "resize gridLayout (pageOfWidth 400) (galleryShowing sixItems 4) =
     Returned ((galleryShowing sixItemsWide 4)\<lparr>bodyWidth := 400\<rparr>)"
proof -
  let ?G = "galleryShowing sixItems 4"
  let ?g3 = "(galleryShowing sixItemsWide 0)\<lparr>bodyWidth := 400\<rparr>"
  have w: "rat_of_int \<lfloor>bodyRectWidth (pageOfWidth 400)\<rfloor> = 400" by (simp add: pageOfWidth_def)
  have bw: "bodyWidth ?G = 200" by (simp add: galleryShowing_def)
  have ne: "rat_of_int \<lfloor>bodyRectWidth (pageOfWidth 400)\<rfloor> \<noteq> bodyWidth ?G"
    unfolding w bw by simp
  have k: "length (pswpContainer ?G) = 4" and n: "length (collection ?G) = 6"
    by (simp_all add: galleryShowing_def sixItems_def)
  have c2: "collection (organize gridLayout (?G\<lparr>bodyWidth := 400\<rparr>)) = sixItemsWide"
    using organize_six by (simp only: sixItemsWide_def)
  have g3: "reset (organize gridLayout (?G\<lparr>bodyWidth := 400\<rparr>)) = ?g3"
    by (subst organize_as_update)
      (simp only: c2, simp add: reset_def galleryShowing_def sixItemsWide_def sixItems_def)
  have nb: "jadd (Num (of_nat (row (sixItemsWide ! (4 - 1))))) (Num 1) = Num 1"
    by (simp add: sixItemsWide_def)
  have r: "resize gridLayout (pageOfWidth 400) ?G = addElements (Some (Num 1)) ?g3"
    unfolding resize_changed[OF ne] w k n c2 g3 nb by simp
  have lt: "length (pswpContainer ?g3) < length (collection ?g3)"
    by (simp add: galleryShowing_def sixItemsWide_def)
  have p: "[0, 1, 2, 3] =
             pswpContainer ?g3 @ map itemFields
               (filter (\<lambda>it. jlt (Num (of_nat (row it)))
                          (lastRowOf (Some (Num 1)) (length (pswpContainer ?g3)) (collection ?g3)))
                  (drop (length (pswpContainer ?g3)) (collection ?g3)))"
    by (simp add: galleryShowing_def sixItemsWide_def lastRowOf_def)
  show ?thesis
    unfolding r addElements_reveal_state[OF lt p]
    by (simp add: galleryShowing_def sixItemsWide_def)
qed

lemma resize_reveals_new_rows:
  assumes "of_int \<lfloor>bodyRectWidth d\<rfloor> \<noteq> bodyWidth g"
      and "0 < length (pswpContainer g)"
      and "length (pswpContainer g) \<le> length (collection g)"
  shows "pswpContainer (stateOf (resize lay d g)) =
           map itemFields
             (filter (\<lambda>it. row it < Suc (row (collection (stateOf (resize lay d g))
                                               ! (length (pswpContainer g) - 1))))
                (collection (stateOf (resize lay d g))))"
proof -
  let ?g2 = "organize lay (g\<lparr>bodyWidth := of_int \<lfloor>bodyRectWidth d\<rfloor>\<rparr>)"
  let ?r = "row (collection ?g2 ! (length (pswpContainer g) - 1))"
  let ?nb = "jadd (Num (of_nat ?r)) (Num 1)"
  have rs: "resize lay d g = addElements (Some ?nb) (reset ?g2)"
    unfolding resize_changed[OF assms(1)] by (simp only: assms(2,3) simp_thms if_True)
  have "0 < length (collection g)" using assms(2,3) by linarith
  then have lt: "length (pswpContainer (reset ?g2)) < length (collection (reset ?g2))"
    by (simp add: reset_def)
  have c: "collection (reset ?g2) = collection ?g2" and p0: "pswpContainer (reset ?g2) = []"
    by (simp_all add: reset_def)
  have lr: "rat_of_nat a < rat_of_nat b + 1 \<longleftrightarrow> a < Suc b" for a b
    using of_nat_less_iff[of a "Suc b", where ?'a = rat] by (simp add: add.commute)
  have P: "(\<lambda>it. jlt (Num (of_nat (row it))) (lastRowOf (Some ?nb) 0 (collection ?g2)))
             = (\<lambda>it. row it < Suc ?r)"
    by (simp add: lastRowOf_def lr)
  have "pswpContainer (stateOf (addElements (Some ?nb) (reset ?g2))) =
          map itemFields (filter (\<lambda>it. row it < Suc ?r) (collection ?g2))"
    unfolding addElements_reveal(2)[OF lt] c p0 list.size P by simp
  moreover have "collection (stateOf (addElements (Some ?nb) (reset ?g2))) = collection ?g2"
    unfolding addElements_reveal(3)[OF lt] c ..
  ultimately show ?thesis unfolding rs by simp
qed

text \<open>
  Claim C3 asks that \<open>resize\<close> leaves as many rows materialized as before. Six items in a
  body \<open>200\<close> wide lie in three rows and the constructor materializes two of them, four
  items. After a resize to a width of \<open>400\<close> the six items lie in two rows, and the four
  materialized items are the first row alone: one row is materialized, not two.
\<close>

theorem resize_changes_row_count:
  "constructor gridLayout (\<lambda>g. Num 3) (pageOfWidth 200) defaultOptions True None None None
     (JArray [0, 1, 2, 3, 4, 5]) = Returned (galleryShowing sixItems 4)
   \<and> distinctRows (take (length (pswpContainer (galleryShowing sixItems 4)))
                     (collection (galleryShowing sixItems 4))) = 2
   \<and> of_int \<lfloor>bodyRectWidth (pageOfWidth 400)\<rfloor> \<noteq> bodyWidth (galleryShowing sixItems 4)
   \<and> returned (resize gridLayout (pageOfWidth 400) (galleryShowing sixItems 4))
   \<and> distinctRows (collection (stateOf
         (resize gridLayout (pageOfWidth 400) (galleryShowing sixItems 4)))) = 2
   \<and> pswpContainer (stateOf (resize gridLayout (pageOfWidth 400) (galleryShowing sixItems 4)))
       = [0, 1, 2, 3]
   \<and> distinctRows
         (take (length (pswpContainer (stateOf
                  (resize gridLayout (pageOfWidth 400) (galleryShowing sixItems 4)))))
            (collection (stateOf
               (resize gridLayout (pageOfWidth 400) (galleryShowing sixItems 4))))) = 1"
proof -
  have before: "distinctRows (take (length (pswpContainer (galleryShowing sixItems 4)))
                     (collection (galleryShowing sixItems 4))) = 2"
    by (simp add: galleryShowing_def sixItems_def distinctRows_def)
  have ne: "rat_of_int \<lfloor>bodyRectWidth (pageOfWidth 400)\<rfloor> \<noteq> bodyWidth (galleryShowing sixItems 4)"
    by (simp add: pageOfWidth_def galleryShowing_def)
  show ?thesis
    unfolding resize_six using constructor_six [of "\<lambda>g. Num 3"] before ne
    by (simp add: distinctRows_def galleryShowing_def sixItemsWide_def)
qed

end
